theory Spec2Isabelle
  imports Main "HOL-Library.Sublist"
begin

section \<open>Data model (types.ts)\<close>

text \<open>
  The enums of \<^verbatim>\<open>types.ts\<close> are string enums; each datatype below comes with the
  function that gives the string value the TypeScript enum member stands for.
\<close>

datatype Urgency = Urgency_HIGH | Urgency_LOW

datatype Importance = Importance_HIGH | Importance_LOW

datatype TaskStatus = TODO | IN_PROGRESS | DONE

datatype ViewMode = DAY | WEEK | MONTH | YEAR

datatype Frequency = NONE | DAILY | WEEKLY | MONTHLY | YEARLY

fun Urgency_value :: "Urgency \<Rightarrow> string" where
  "Urgency_value Urgency_HIGH = ''High''"
| "Urgency_value Urgency_LOW = ''Low''"

fun Importance_value :: "Importance \<Rightarrow> string" where
  "Importance_value Importance_HIGH = ''High''"
| "Importance_value Importance_LOW = ''Low''"

fun TaskStatus_value :: "TaskStatus \<Rightarrow> string" where
  "TaskStatus_value TODO = ''To Do''"
| "TaskStatus_value IN_PROGRESS = ''In Progress''"
| "TaskStatus_value DONE = ''Done''"

fun Frequency_value :: "Frequency \<Rightarrow> string" where
  "Frequency_value NONE = ''None''"
| "Frequency_value DAILY = ''Daily''"
| "Frequency_value WEEKLY = ''Weekly''"
| "Frequency_value MONTHLY = ''Monthly''"
| "Frequency_value YEARLY = ''Yearly''"

text \<open>
  \<^verbatim>\<open>interface HistoryEntry\<close> and \<^verbatim>\<open>interface Task\<close>. The fields \<^verbatim>\<open>id\<close> are
  renamed (\<open>id\<close> is the identity function of HOL). Timestamps are JavaScript numbers
  holding milliseconds since the epoch, here \<open>int\<close>. An optional field is an
  \<open>option\<close>: \<open>None\<close> is JavaScript's \<^verbatim>\<open>undefined\<close>.
\<close>

record HistoryEntry =
  entry_id :: string
  timestamp :: int
  field :: string
  oldValue :: string
  newValue :: string
  user :: string

record Task =
  task_id :: string
  title :: string
  description :: string
  urgency :: Urgency
  importance :: Importance
  status :: TaskStatus
  date :: string
  frequency :: Frequency
  createdAt :: int
  updatedAt :: int
  completedAt :: "int option"
  history :: "HistoryEntry list"
  completionHistory :: "(string \<rightharpoonup> TaskStatus) option"
  recurrenceEndedAt :: "int option"

datatype QuadrantId = q1 | q2 | q3 | q4

text \<open>The table \<^verbatim>\<open>QUADRANTS\<close>: the urgency and importance of each quadrant.\<close>

fun QUADRANTS :: "QuadrantId \<Rightarrow> Urgency \<times> Importance" where
  "QUADRANTS q1 = (Urgency_HIGH, Importance_HIGH)"
| "QUADRANTS q2 = (Urgency_LOW, Importance_HIGH)"
| "QUADRANTS q3 = (Urgency_HIGH, Importance_LOW)"
| "QUADRANTS q4 = (Urgency_LOW, Importance_LOW)"


section \<open>JavaScript numbers, strings and dates\<close>

subsection \<open>Decimal output and input\<close>

text \<open>
  \<^verbatim>\<open>String(n)\<close> and template interpolation of an integer: its decimal digits, with a
  minus sign when negative. (JavaScript switches to exponent notation from \<open>10\<^sup>2\<^sup>1\<close>
  on; timestamps and calendar fields stay far below.)
\<close>

definition digit_char :: "int \<Rightarrow> char" where
  "digit_char n = char_of (48 + nat n)"

function digits_of :: "int \<Rightarrow> string" where
  "digits_of n = (if n < 10 then [digit_char n]
                  else digits_of (n div 10) @ [digit_char (n mod 10)])"
  by pat_completeness auto

termination digits_of
  by (relation "measure nat") auto

declare digits_of.simps [simp del]

definition string_of_int :: "int \<Rightarrow> string" where
  "string_of_int i = (if i < 0 then CHR ''-'' # digits_of (- i) else digits_of i)"

text \<open>
  \<^verbatim>\<open>String(Math.abs(n)).padStart(len, '0')\<close>, and \<^verbatim>\<open>addLeadingZeros(n, len)\<close> of
  date-fns, which puts the sign in front of it.
\<close>

definition pad_zeros :: "int \<Rightarrow> nat \<Rightarrow> string" where
  "pad_zeros n len = (let s = digits_of \<bar>n\<bar> in replicate (len - length s) CHR ''0'' @ s)"

definition addLeadingZeros :: "int \<Rightarrow> nat \<Rightarrow> string" where
  "addLeadingZeros n len = (if n < 0 then ''-'' else []) @ pad_zeros n len"

text \<open>
  \<^verbatim>\<open>Number(s)\<close> on the strings this program feeds it: ASCII white space around the
  text is dropped, the empty text is \<open>0\<close>, an optional sign followed by decimal digits is that
  integer, and anything else is \<^verbatim>\<open>NaN\<close>, here \<open>None\<close>. (Fractions, exponents, radix
  prefixes and \<^verbatim>\<open>Infinity\<close>, which \<^verbatim>\<open>Number\<close> also reads, are outside this model.)
\<close>

definition is_digit :: "char \<Rightarrow> bool" where
  "is_digit c = (48 \<le> (of_char c :: nat) \<and> (of_char c :: nat) \<le> 57)"

definition is_space :: "char \<Rightarrow> bool" where
  "is_space c = ((of_char c :: nat) \<in> {9, 10, 11, 12, 13, 32})"

definition trim :: "string \<Rightarrow> string" where
  "trim s = rev (dropWhile is_space (rev (dropWhile is_space s)))"

definition digits_value :: "string \<Rightarrow> int" where
  "digits_value s = foldl (\<lambda>acc c. 10 * acc + (of_char c - 48)) 0 s"

definition Number :: "string \<Rightarrow> int option" where
  "Number s =
     (case trim s of
        [] \<Rightarrow> Some 0
      | c # cs \<Rightarrow>
          if c = CHR ''-'' \<or> c = CHR ''+'' then
            (if cs \<noteq> [] \<and> list_all is_digit cs
             then Some ((if c = CHR ''-'' then -1 else 1) * digits_value cs)
             else None)
          else if list_all is_digit (c # cs) then Some (digits_value (c # cs))
          else None)"

text \<open>\<^verbatim>\<open>s.split(sep)\<close> for a one-character separator.\<close>

fun split_on :: "char \<Rightarrow> string \<Rightarrow> string list" where
  "split_on sep [] = [[]]"
| "split_on sep (c # cs) =
     (if c = sep then [] # split_on sep cs
      else (case split_on sep cs of
              [] \<Rightarrow> [[c]]
            | p # ps \<Rightarrow> (c # p) # ps))"

subsection \<open>Time values (ECMAScript, Date objects)\<close>

text \<open>
  A valid \<^verbatim>\<open>Date\<close> holds a time value: milliseconds since 1970-01-01T00:00Z, here an
  \<open>int\<close> (the range limit of \<^verbatim>\<open>TimeClip\<close> is not modelled). \<^verbatim>\<open>Invalid Date\<close>, whose time
  value is \<^verbatim>\<open>NaN\<close>, is \<open>None\<close>. The functions below are the abstract operations of
  the ECMAScript specification under their names there. The host's time zone is a
  parameter \<open>tza\<close>, the offset of local time from UTC in milliseconds (a zone with a
  fixed offset: daylight saving changes are not modelled).
\<close>

definition msPerDay :: int where
  "msPerDay = 86400000"

definition Day :: "int \<Rightarrow> int" where
  "Day t = t div msPerDay"

definition TimeWithinDay :: "int \<Rightarrow> int" where
  "TimeWithinDay t = t mod msPerDay"

definition DaysInYear :: "int \<Rightarrow> int" where
  "DaysInYear y =
     (if y mod 4 \<noteq> 0 then 365
      else if y mod 100 \<noteq> 0 then 366
      else if y mod 400 \<noteq> 0 then 365
      else 366)"

definition DayFromYear :: "int \<Rightarrow> int" where
  "DayFromYear y =
     365 * (y - 1970) + (y - 1969) div 4 - (y - 1901) div 100 + (y - 1601) div 400"

text \<open>
  \<^verbatim>\<open>YearFromTime(t)\<close> is the largest \<open>y\<close> with \<open>DayFromYear y \<le> Day t\<close>. It is
  computed by counting up from a year that is not too late.
\<close>

definition year_estimate :: "int \<Rightarrow> int" where
  "year_estimate d = 1970 + (if 0 \<le> d then d div 366 else d div 365)"

function year_search :: "int \<Rightarrow> int \<Rightarrow> int" where
  "year_search d y = (if DayFromYear (y + 1) \<le> d then year_search d (y + 1) else y)"
  by pat_completeness auto

lemma div_step:
  fixes a k :: int
  assumes k: "0 < k"
  shows "(a + 1) div k = a div k + (if (a + 1) mod k = 0 then 1 else 0)"
proof (cases "(a + 1) mod k = 0")
  case True
  then obtain q where q: "a + 1 = k * q" by (auto simp: mod_eq_0_iff_dvd)
  then have a: "a = k * (q - 1) + (k - 1)" by (simp add: algebra_simps)
  have "a div k = q - 1"
    using k by (subst a) (simp add: div_mult_self2)
  moreover have "(a + 1) div k = q" using k q by simp
  ultimately show ?thesis using True by simp
next
  case False
  have m: "a mod k < k - 1"
  proof (rule ccontr)
    assume "\<not> a mod k < k - 1"
    moreover have "a mod k < k" using k by simp
    ultimately have e: "a mod k = k - 1" by linarith
    have "(a + 1) mod k = (a mod k + 1) mod k" by (simp add: mod_add_left_eq)
    also have "\<dots> = 0" using e by simp
    finally show False using False by simp
  qed
  have "a + 1 = k * (a div k) + (a mod k + 1)" by simp
  moreover have "0 \<le> a mod k + 1" using k by (simp add: add_nonneg_nonneg)
  moreover have "a mod k + 1 < k" using m by simp
  ultimately have "(a + 1) div k = a div k"
    by (metis div_pos_pos_trivial div_mult_self2 k less_irrefl add.commute add_cancel_right_left)
  then show ?thesis using False by simp
qed

lemma mod_shift: "(y - k * c) mod k = y mod k" for y k c :: int
  by (metis mod_mult_self2 diff_conv_add_uminus mult_minus_right)

lemma DayFromYear_Suc: "DayFromYear (y + 1) = DayFromYear y + DaysInYear y"
proof -
  have a: "(y + 1 - 1969) div 4 = (y - 1969) div 4 + (if y mod 4 = 0 then 1 else 0)"
    using div_step [of 4 "y - 1969"] mod_shift [of y 4 492] by (simp add: algebra_simps)
  have b: "(y + 1 - 1901) div 100 = (y - 1901) div 100 + (if y mod 100 = 0 then 1 else 0)"
    using div_step [of 100 "y - 1901"] mod_shift [of y 100 19] by (simp add: algebra_simps)
  have c: "(y + 1 - 1601) div 400 = (y - 1601) div 400 + (if y mod 400 = 0 then 1 else 0)"
    using div_step [of 400 "y - 1601"] mod_shift [of y 400 4] by (simp add: algebra_simps)
  have d: "y mod 400 = 0 \<Longrightarrow> y mod 100 = 0"
    using mod_mod_cancel [of 100 400 y] by simp
  have e: "y mod 100 = 0 \<Longrightarrow> y mod 4 = 0"
    using mod_mod_cancel [of 4 100 y] by simp
  show ?thesis
    unfolding DayFromYear_def DaysInYear_def a b c using d e by auto
qed

termination year_search
proof (relation "measure (\<lambda>(d, y). nat (d - DayFromYear y))")
  show "wf (measure (\<lambda>(d, y). nat (d - DayFromYear y)))" by simp
next
  fix d y :: int
  assume "DayFromYear (y + 1) \<le> d"
  moreover have "0 < DaysInYear y" by (simp add: DaysInYear_def)
  ultimately show "((d, y + 1), (d, y)) \<in> measure (\<lambda>(d, y). nat (d - DayFromYear y))"
    by (simp add: DayFromYear_Suc)
qed

declare year_search.simps [simp del]

definition YearFromTime :: "int \<Rightarrow> int" where
  "YearFromTime t = year_search (Day t) (year_estimate (Day t))"

definition InLeapYear :: "int \<Rightarrow> int" where
  "InLeapYear t = (if DaysInYear (YearFromTime t) = 366 then 1 else 0)"

definition DayWithinYear :: "int \<Rightarrow> int" where
  "DayWithinYear t = Day t - DayFromYear (YearFromTime t)"

definition MonthFromTime :: "int \<Rightarrow> int" where
  "MonthFromTime t =
     (let d = DayWithinYear t; l = InLeapYear t in
      if d < 31 then 0
      else if d < 59 + l then 1
      else if d < 90 + l then 2
      else if d < 120 + l then 3
      else if d < 151 + l then 4
      else if d < 181 + l then 5
      else if d < 212 + l then 6
      else if d < 243 + l then 7
      else if d < 273 + l then 8
      else if d < 304 + l then 9
      else if d < 334 + l then 10
      else 11)"

definition DateFromTime :: "int \<Rightarrow> int" where
  "DateFromTime t =
     (let d = DayWithinYear t; l = InLeapYear t; m = MonthFromTime t in
      if m = 0 then d + 1
      else if m = 1 then d - 30
      else if m = 2 then d - 58 - l
      else if m = 3 then d - 89 - l
      else if m = 4 then d - 119 - l
      else if m = 5 then d - 150 - l
      else if m = 6 then d - 180 - l
      else if m = 7 then d - 211 - l
      else if m = 8 then d - 242 - l
      else if m = 9 then d - 272 - l
      else if m = 10 then d - 303 - l
      else d - 333 - l)"

definition WeekDay :: "int \<Rightarrow> int" where
  "WeekDay t = (Day t + 4) mod 7"

text \<open>The day number of the first day of month \<open>mn\<close> (0 to 11) within a year.\<close>

definition month_start :: "int \<Rightarrow> int \<Rightarrow> int" where
  "month_start l mn =
     (if mn = 0 then 0
      else if mn = 1 then 31
      else if mn = 2 then 59 + l
      else if mn = 3 then 90 + l
      else if mn = 4 then 120 + l
      else if mn = 5 then 151 + l
      else if mn = 6 then 181 + l
      else if mn = 7 then 212 + l
      else if mn = 8 then 243 + l
      else if mn = 9 then 273 + l
      else if mn = 10 then 304 + l
      else 334 + l)"

text \<open>The number of days of month \<open>m\<close> in a common (\<open>l = 0\<close>) or leap (\<open>l = 1\<close>) year.\<close>

definition month_length :: "int \<Rightarrow> int \<Rightarrow> int" where
  "month_length l m =
     (if m = 1 then 28 + l else if m = 3 \<or> m = 5 \<or> m = 8 \<or> m = 10 then 30 else 31)"

definition MakeDay :: "int \<Rightarrow> int \<Rightarrow> int \<Rightarrow> int" where
  "MakeDay year month dt =
     (let ym = year + month div 12;
          mn = month mod 12;
          l = (if DaysInYear ym = 366 then 1 else 0)
      in DayFromYear ym + month_start l mn + dt - 1)"

definition MakeDate :: "int \<Rightarrow> int \<Rightarrow> int" where
  "MakeDate day time = day * msPerDay + time"

definition LocalTime :: "int \<Rightarrow> int \<Rightarrow> int" where
  "LocalTime tza t = t + tza"

definition UTC :: "int \<Rightarrow> int \<Rightarrow> int" where
  "UTC tza t = t - tza"

text \<open>The methods of \<^verbatim>\<open>Date\<close> the program calls, on a valid time value.\<close>

definition getFullYear :: "int \<Rightarrow> int \<Rightarrow> int" where
  "getFullYear tza t = YearFromTime (LocalTime tza t)"

definition getMonth :: "int \<Rightarrow> int \<Rightarrow> int" where
  "getMonth tza t = MonthFromTime (LocalTime tza t)"

definition getDate :: "int \<Rightarrow> int \<Rightarrow> int" where
  "getDate tza t = DateFromTime (LocalTime tza t)"

definition getDay :: "int \<Rightarrow> int \<Rightarrow> int" where
  "getDay tza t = WeekDay (LocalTime tza t)"

text \<open>\<^verbatim>\<open>d.setHours(0, 0, 0, 0)\<close>: the local midnight of the day of \<open>t\<close>.\<close>

definition setHours0 :: "int \<Rightarrow> int \<Rightarrow> int" where
  "setHours0 tza t = UTC tza (MakeDate (Day (LocalTime tza t)) 0)"

text \<open>\<^verbatim>\<open>d.setDate(n)\<close> and \<^verbatim>\<open>d.setMonth(m, n)\<close>.\<close>

definition setDate :: "int \<Rightarrow> int \<Rightarrow> int \<Rightarrow> int" where
  "setDate tza t dt =
     (let lt = LocalTime tza t in
      UTC tza (MakeDate (MakeDay (YearFromTime lt) (MonthFromTime lt) dt) (TimeWithinDay lt)))"

definition setMonth :: "int \<Rightarrow> int \<Rightarrow> int \<Rightarrow> int \<Rightarrow> int" where
  "setMonth tza t m dt =
     (let lt = LocalTime tza t in
      UTC tza (MakeDate (MakeDay (YearFromTime lt) m dt) (TimeWithinDay lt)))"

text \<open>
  \<^verbatim>\<open>new Date(y, m, d)\<close> on numbers that may be \<^verbatim>\<open>NaN\<close>: local midnight of the day,
  with the constructor's rule that a year from 0 to 99 means 1900 + year.
\<close>

definition new_Date_ymd :: "int \<Rightarrow> int option \<Rightarrow> int option \<Rightarrow> int option \<Rightarrow> int option" where
  "new_Date_ymd tza y m d =
     (case (y, m, d) of
        (Some yv, Some mv, Some dv) \<Rightarrow>
          (let yr = (if 0 \<le> yv \<and> yv \<le> 99 then 1900 + yv else yv)
           in Some (UTC tza (MakeDate (MakeDay yr mv dv) 0)))
      | _ \<Rightarrow> None)"

text \<open>
  Relational comparison and strict equality of two \<^verbatim>\<open>Date\<close>s' time values, the second
  of which may be \<^verbatim>\<open>NaN\<close>: every comparison with \<^verbatim>\<open>NaN\<close> is false.
\<close>

definition js_lt :: "int \<Rightarrow> int option \<Rightarrow> bool" where
  "js_lt a b = (case b of None \<Rightarrow> False | Some bv \<Rightarrow> a < bv)"

definition js_le_opt :: "int option \<Rightarrow> int \<Rightarrow> bool" where
  "js_le_opt a b = (case a of None \<Rightarrow> False | Some av \<Rightarrow> av \<le> b)"

definition js_ge_opt :: "int option \<Rightarrow> int \<Rightarrow> bool" where
  "js_ge_opt a b = (case a of None \<Rightarrow> False | Some av \<Rightarrow> av \<ge> b)"

definition js_eq :: "int \<Rightarrow> int option \<Rightarrow> bool" where
  "js_eq a b = (case b of None \<Rightarrow> False | Some bv \<Rightarrow> a = bv)"

subsection \<open>The date-fns functions the program imports\<close>

text \<open>
  \<^verbatim>\<open>getWeek\<close>, \<^verbatim>\<open>format\<close>, \<^verbatim>\<open>endOfDay\<close>, \<^verbatim>\<open>endOfWeek\<close>, \<^verbatim>\<open>endOfMonth\<close>, \<^verbatim>\<open>endOfYear\<close> and
  \<^verbatim>\<open>eachDayOfInterval\<close> are library functions of date-fns; they are written here as
  the library computes them. The program never changes the library's default options,
  so a call without options runs with \<^verbatim>\<open>weekStartsOn = 0\<close> (Sunday) and
  \<^verbatim>\<open>firstWeekContainsDate = 1\<close>.
\<close>

definition setHours_end :: "int \<Rightarrow> int \<Rightarrow> int" where
  \<comment> \<open>\<^verbatim>\<open>d.setHours(23, 59, 59, 999)\<close>\<close>
  "setHours_end tza t = UTC tza (MakeDate (Day (LocalTime tza t)) (msPerDay - 1))"

definition fns_startOfWeek :: "int \<Rightarrow> int \<Rightarrow> int \<Rightarrow> int" where
  "fns_startOfWeek tza weekStartsOn t =
     (let day = getDay tza t;
          diff = (if day < weekStartsOn then 7 else 0) + day - weekStartsOn
      in setHours0 tza (setDate tza t (getDate tza t - diff)))"

definition getWeekYear :: "int \<Rightarrow> int \<Rightarrow> int" where
  "getWeekYear tza t =
     (let year = getFullYear tza t;
          firstWeekOfNextYear = UTC tza (MakeDate (MakeDay (year + 1) 0 1) 0);
          startOfNextYear = fns_startOfWeek tza 0 firstWeekOfNextYear;
          firstWeekOfThisYear = UTC tza (MakeDate (MakeDay year 0 1) 0);
          startOfThisYear = fns_startOfWeek tza 0 firstWeekOfThisYear
      in if startOfNextYear \<le> t then year + 1
         else if startOfThisYear \<le> t then year
         else year - 1)"

definition startOfWeekYear :: "int \<Rightarrow> int \<Rightarrow> int" where
  "startOfWeekYear tza t =
     (let year = getWeekYear tza t;
          firstWeek = UTC tza (MakeDate (MakeDay year 0 1) 0)
      in fns_startOfWeek tza 0 firstWeek)"

definition Math_round_div :: "int \<Rightarrow> int \<Rightarrow> int" where
  \<comment> \<open>\<^verbatim>\<open>Math.round(a / b)\<close> for \<open>b > 0\<close>: the integer nearest to the quotient, halves up\<close>
  "Math_round_div a b = (2 * a + b) div (2 * b)"

definition getWeek :: "int \<Rightarrow> int \<Rightarrow> int" where
  "getWeek tza t =
     (let diff = fns_startOfWeek tza 0 t - startOfWeekYear tza t
      in Math_round_div diff (7 * msPerDay) + 1)"

definition format_yyyy_MM :: "int \<Rightarrow> int \<Rightarrow> string" where
  \<comment> \<open>\<^verbatim>\<open>format(d, 'yyyy-MM')\<close>: the year of the era on four digits, the month on two\<close>
  "format_yyyy_MM tza t =
     (let signedYear = getFullYear tza t;
          year = (if signedYear > 0 then signedYear else 1 - signedYear)
      in addLeadingZeros year 4 @ ''-'' @ addLeadingZeros (getMonth tza t + 1) 2)"

definition endOfDay :: "int \<Rightarrow> int \<Rightarrow> int" where
  "endOfDay tza t = setHours_end tza t"

definition endOfWeek :: "int \<Rightarrow> int \<Rightarrow> int \<Rightarrow> int" where
  "endOfWeek tza weekStartsOn t =
     (let day = getDay tza t;
          diff = (if day < weekStartsOn then -7 else 0) + 6 - (day - weekStartsOn)
      in setHours_end tza (setDate tza t (getDate tza t + diff)))"

definition endOfMonth :: "int \<Rightarrow> int \<Rightarrow> int" where
  "endOfMonth tza t =
     (let lt = LocalTime tza t;
          moved = UTC tza (MakeDate (MakeDay (YearFromTime lt) (MonthFromTime lt + 1) 0)
                                    (TimeWithinDay lt))
      in setHours_end tza moved)"

definition endOfYear :: "int \<Rightarrow> int \<Rightarrow> int" where
  "endOfYear tza t =
     (let lt = LocalTime tza t;
          moved = UTC tza (MakeDate (MakeDay (YearFromTime lt + 1) 0 0) (TimeWithinDay lt))
      in setHours_end tza moved)"

text \<open>
  \<^verbatim>\<open>eachDayOfInterval\<close> walks from the start's midnight to the end, one
  \<^verbatim>\<open>setDate(getDate() + 1)\<close> at a time (an interval given backwards is walked from its
  end to its start and the list reversed; the program always gives start before end).
  The loop ends because each step moves the date forward; the lemmas before the
  termination proof say so.
\<close>

lemma MonthFromTime_range: "0 \<le> MonthFromTime t \<and> MonthFromTime t \<le> 11"
  by (simp add: MonthFromTime_def Let_def)

lemma month_start_date:
  "month_start (InLeapYear t) (MonthFromTime t) + DateFromTime t - 1 = DayWithinYear t"
  by (simp add: month_start_def DateFromTime_def MonthFromTime_def Let_def)

lemma MakeDay_roundtrip:
  "MakeDay (YearFromTime t) (MonthFromTime t) (DateFromTime t + k) = Day t + k"
proof -
  have r: "0 \<le> MonthFromTime t" "MonthFromTime t < 12"
    using MonthFromTime_range [of t] by auto
  then have dm: "MonthFromTime t div 12 = 0" "MonthFromTime t mod 12 = MonthFromTime t"
    by simp_all
  have "DayWithinYear t = Day t - DayFromYear (YearFromTime t)"
    by (simp add: DayWithinYear_def)
  with month_start_date [of t] show ?thesis
    unfolding MakeDay_def Let_def dm by (simp add: InLeapYear_def)
qed

lemma Day_TimeWithinDay: "Day t * msPerDay + TimeWithinDay t = t"
  by (simp add: Day_def TimeWithinDay_def)

lemma setDate_shift: "setDate tza t (getDate tza t + k) = t + k * msPerDay"
proof -
  have "MakeDate (Day (LocalTime tza t) + k) (TimeWithinDay (LocalTime tza t))
        = LocalTime tza t + k * msPerDay"
    using Day_TimeWithinDay [of "LocalTime tza t"] by (simp add: MakeDate_def algebra_simps)
  then show ?thesis
    by (simp add: setDate_def getDate_def Let_def MakeDay_roundtrip UTC_def LocalTime_def)
qed

lemma setHours0_bounds: "setHours0 tza t \<le> t \<and> t < setHours0 tza t + msPerDay"
proof -
  have "0 \<le> (t + tza) mod msPerDay" "(t + tza) mod msPerDay < msPerDay"
    by (simp_all add: msPerDay_def)
  moreover have "(t + tza) div msPerDay * msPerDay = (t + tza) - (t + tza) mod msPerDay"
    by (simp add: algebra_simps minus_mod_eq_mult_div)
  ultimately show ?thesis
    by (simp add: setHours0_def UTC_def MakeDate_def Day_def LocalTime_def)
qed

definition next_day :: "int \<Rightarrow> int \<Rightarrow> int" where
  \<comment> \<open>\<^verbatim>\<open>date.setDate(date.getDate() + 1); date.setHours(0, 0, 0, 0)\<close>\<close>
  "next_day tza t = setHours0 tza (setDate tza t (getDate tza t + 1))"

lemma next_day_greater: "t < next_day tza t"
  using setHours0_bounds [of tza "t + msPerDay"]
  by (simp add: next_day_def setDate_shift)

function each_day_loop :: "int \<Rightarrow> int \<Rightarrow> int \<Rightarrow> int list" where
  "each_day_loop tza t endTime =
     (if t \<le> endTime then t # each_day_loop tza (next_day tza t) endTime else [])"
  by pat_completeness auto

termination each_day_loop
proof (relation "measure (\<lambda>(tza, t, endTime). nat (endTime + 1 - t))")
  show "wf (measure (\<lambda>(tza, t, endTime). nat (endTime + 1 - t)))" by simp
next
  fix tza t endTime :: int
  assume "t \<le> endTime"
  then show "((tza, next_day tza t, endTime), (tza, t, endTime))
             \<in> measure (\<lambda>(tza, t, endTime). nat (endTime + 1 - t))"
    using next_day_greater [of t tza] by simp
qed

declare each_day_loop.simps [simp del]

definition eachDayOfInterval :: "int \<Rightarrow> int \<Rightarrow> int \<Rightarrow> int list" where
  "eachDayOfInterval tza start end =
     (let reversed = (start > end);
          endTime = (if reversed then start else end);
          first = setHours0 tza (if reversed then end else start);
          dates = each_day_loop tza first endTime
      in if reversed then rev dates else dates)"


section \<open>Calendar arithmetic and the occurrence evaluator (lib/utils.ts)\<close>

text \<open>
  \<^verbatim>\<open>formatDate\<close> takes the date part of \<^verbatim>\<open>toISOString()\<close>, which is written in UTC:
  four digits for the years 0 to 9999, a sign and six digits otherwise.
\<close>

definition formatDate :: "int \<Rightarrow> string" where
  "formatDate t =
     (let y = YearFromTime t;
          ys = (if 0 \<le> y \<and> y \<le> 9999 then pad_zeros y 4
                else (if y < 0 then ''-'' else ''+'') @ pad_zeros y 6)
      in ys @ ''-'' @ pad_zeros (MonthFromTime t + 1) 2 @ ''-'' @ pad_zeros (DateFromTime t) 2)"

text \<open>
  \<^verbatim>\<open>parseLocalTaskDate\<close>: the parts between the hyphens go through \<^verbatim>\<open>Number\<close>; a
  part that is missing is \<^verbatim>\<open>undefined\<close> and makes the date invalid.
\<close>

definition part_number :: "string list \<Rightarrow> nat \<Rightarrow> int option" where
  "part_number parts i = (if i < length parts then Number (parts ! i) else None)"

definition parseLocalTaskDate :: "int \<Rightarrow> string \<Rightarrow> int option" where
  "parseLocalTaskDate tza dateString =
     (let parts = split_on CHR ''-'' dateString;
          y = part_number parts 0;
          m = part_number parts 1;
          d = part_number parts 2;
          date = new_Date_ymd tza y (map_option (\<lambda>v. v - 1) m) d
      in map_option (setHours0 tza) date)"

definition getPeriodKey :: "int \<Rightarrow> int \<Rightarrow> Frequency \<Rightarrow> string" where
  "getPeriodKey tza d fr =
     (let y = getFullYear tza d in
      case fr of
        DAILY \<Rightarrow> formatDate d
      | WEEKLY \<Rightarrow> string_of_int y @ ''-W'' @ string_of_int (getWeek tza d)
      | MONTHLY \<Rightarrow> format_yyyy_MM tza d
      | YEARLY \<Rightarrow> string_of_int y
      | NONE \<Rightarrow> [])"

text \<open>
  \<^verbatim>\<open>getTaskStatus\<close>. A ledger that is \<^verbatim>\<open>undefined\<close> and a key that is not in the
  ledger both give \<^verbatim>\<open>undefined\<close>, which \<^verbatim>\<open>|| TaskStatus.TODO\<close> replaces; a stored
  status is a non-empty string and passes through.
\<close>

definition getTaskStatus :: "int \<Rightarrow> Task \<Rightarrow> int \<Rightarrow> TaskStatus" where
  "getTaskStatus tza task d =
     (if frequency task = NONE then status task
      else
        (let key = getPeriodKey tza d (frequency task) in
         case completionHistory task of
           None \<Rightarrow> TODO
         | Some ledger \<Rightarrow> (case ledger key of None \<Rightarrow> TODO | Some s \<Rightarrow> s)))"

text \<open>
  What the completion ledger of a task holds under a key, if anything: nothing when the
  ledger is \<^verbatim>\<open>undefined\<close> or lacks the key.
\<close>

definition ledger_entry :: "Task \<Rightarrow> string \<Rightarrow> TaskStatus option" where
  "ledger_entry task key =
     (case completionHistory task of None \<Rightarrow> None | Some ledger \<Rightarrow> ledger key)"

text \<open>
  \<^verbatim>\<open>isTaskActiveOnDate\<close>. The test \<^verbatim>\<open>if (task.recurrenceEndedAt)\<close> holds for a
  timestamp that is defined and not zero.
\<close>

definition series_ended :: "Task \<Rightarrow> bool" where
  "series_ended task = (case recurrenceEndedAt task of None \<Rightarrow> False | Some e \<Rightarrow> e \<noteq> 0)"

definition isTaskActiveOnDate :: "int \<Rightarrow> Task \<Rightarrow> int \<Rightarrow> bool" where
  "isTaskActiveOnDate tza task d =
     (if (case recurrenceEndedAt task of
            None \<Rightarrow> False
          | Some e \<Rightarrow> e \<noteq> 0 \<and> setHours0 tza d > setHours0 tza e)
      then False
      else
        (let startDate = parseLocalTaskDate tza (date task);
             checkDate = setHours0 tza d
         in if js_lt checkDate startDate then False
            else (case frequency task of
                    DAILY \<Rightarrow> True
                  | WEEKLY \<Rightarrow> js_eq (getDay tza checkDate) (map_option (getDay tza) startDate)
                  | MONTHLY \<Rightarrow> js_eq (getDate tza checkDate) (map_option (getDate tza) startDate)
                  | YEARLY \<Rightarrow>
                      js_eq (getDate tza checkDate) (map_option (getDate tza) startDate)
                      \<and> js_eq (getMonth tza checkDate) (map_option (getMonth tza) startDate)
                  | NONE \<Rightarrow> js_eq checkDate startDate)))"

text \<open>\<^verbatim>\<open>startOfWeek\<close> of \<^verbatim>\<open>utils.ts\<close>, with its option \<^verbatim>\<open>weekStartsOn\<close>.\<close>

definition startOfWeek :: "int \<Rightarrow> int \<Rightarrow> int \<Rightarrow> int" where
  "startOfWeek tza weekStartsOn t =
     (let day = getDay tza t;
          diff = (if day < weekStartsOn then 7 else 0) + day - weekStartsOn
      in setHours0 tza (setDate tza t (getDate tza t - diff)))"


section \<open>The view interval filter (App.tsx)\<close>

text \<open>
  The interval of the view, as the \<^verbatim>\<open>switch\<close> of \<^verbatim>\<open>filteredTasks\<close> computes it (the
  default branch is out of reach: \<^verbatim>\<open>viewMode\<close> is one of the four modes).
\<close>

definition view_interval :: "int \<Rightarrow> ViewMode \<Rightarrow> int \<Rightarrow> int \<times> int" where
  "view_interval tza viewMode currentDate =
     (case viewMode of
        DAY \<Rightarrow> (setHours0 tza currentDate, endOfDay tza currentDate)
      | WEEK \<Rightarrow> (startOfWeek tza 1 currentDate, endOfWeek tza 1 currentDate)
      | MONTH \<Rightarrow> (setHours0 tza (setDate tza currentDate 1), endOfMonth tza currentDate)
      | YEAR \<Rightarrow> (setHours0 tza (setMonth tza currentDate 0 1), endOfYear tza currentDate))"

text \<open>
  The Year view's test for a recurring task, \<^verbatim>\<open>taskStart <= interval.end\<close> with
  \<^verbatim>\<open>taskStart = new Date(y, m - 1, d)\<close>, and the test of the shorter views,
  \<^verbatim>\<open>eachDayOfInterval(interval).some(day => isTaskActiveOnDate(task, day))\<close>.
\<close>

definition task_start :: "int \<Rightarrow> string \<Rightarrow> int option" where
  "task_start tza dateString =
     (let parts = split_on CHR ''-'' dateString;
          y = part_number parts 0;
          m = part_number parts 1;
          d = part_number parts 2
      in new_Date_ymd tza y (map_option (\<lambda>v. v - 1) m) d)"

definition year_prefilter :: "int \<Rightarrow> Task \<Rightarrow> int \<Rightarrow> bool" where
  "year_prefilter tza task end = js_le_opt (task_start tza (date task)) end"

definition occurs_in_interval :: "int \<Rightarrow> Task \<Rightarrow> int \<Rightarrow> int \<Rightarrow> bool" where
  "occurs_in_interval tza task start end =
     list_ex (isTaskActiveOnDate tza task) (eachDayOfInterval tza start end)"

text \<open>The predicate of \<^verbatim>\<open>tasks.filter\<close>, and the filter with the status it injects.\<close>

definition task_in_view :: "int \<Rightarrow> ViewMode \<Rightarrow> int \<Rightarrow> Task \<Rightarrow> bool" where
  "task_in_view tza viewMode currentDate task =
     (let start = fst (view_interval tza viewMode currentDate);
          end = snd (view_interval tza viewMode currentDate)
      in if frequency task = DAILY \<and> viewMode \<noteq> DAY then False
         else if frequency task = WEEKLY \<and> (viewMode = MONTH \<or> viewMode = YEAR) then False
         else if frequency task = MONTHLY \<and> viewMode = YEAR then False
         else if frequency task = NONE then
           (let taskDate = parseLocalTaskDate tza (date task)
            in js_ge_opt taskDate start \<and> js_le_opt taskDate end)
         else if viewMode = YEAR then year_prefilter tza task end
         else occurs_in_interval tza task start end)"

definition filteredTasks :: "int \<Rightarrow> ViewMode \<Rightarrow> int \<Rightarrow> Task list \<Rightarrow> Task list" where
  "filteredTasks tza viewMode currentDate tasks =
     map (\<lambda>task. task\<lparr>status := getTaskStatus tza task currentDate\<rparr>)
         (filter (task_in_view tza viewMode currentDate) tasks)"


section \<open>The mutation engine (App.tsx) and the series buttons (TaskModal.tsx)\<close>

subsection \<open>Partial tasks\<close>

text \<open>
  A \<^verbatim>\<open>Partial<Task>\<close> is an object holding some of the keys of a task, in the order in
  which they were added: a list of fields. A key of an optional field may be present
  with the value \<^verbatim>\<open>undefined\<close> (\<open>None\<close>); the other keys carry a value of the field's
  type. An object has each key once; the functions below are defined on every list, and
  the order of the keys matters only for the order of the history entries that one save
  appends.
\<close>

datatype Patch_Field =
    P_id string
  | P_title string
  | P_description string
  | P_urgency Urgency
  | P_importance Importance
  | P_status TaskStatus
  | P_date string
  | P_frequency Frequency
  | P_createdAt int
  | P_updatedAt int
  | P_completedAt "int option"
  | P_history "HistoryEntry list"
  | P_completionHistory "(string \<rightharpoonup> TaskStatus) option"
  | P_recurrenceEndedAt "int option"

type_synonym TaskPatch = "Patch_Field list"

fun key_of :: "Patch_Field \<Rightarrow> string" where
  "key_of (P_id v) = ''id''"
| "key_of (P_title v) = ''title''"
| "key_of (P_description v) = ''description''"
| "key_of (P_urgency v) = ''urgency''"
| "key_of (P_importance v) = ''importance''"
| "key_of (P_status v) = ''status''"
| "key_of (P_date v) = ''date''"
| "key_of (P_frequency v) = ''frequency''"
| "key_of (P_createdAt v) = ''createdAt''"
| "key_of (P_updatedAt v) = ''updatedAt''"
| "key_of (P_completedAt v) = ''completedAt''"
| "key_of (P_history v) = ''history''"
| "key_of (P_completionHistory v) = ''completionHistory''"
| "key_of (P_recurrenceEndedAt v) = ''recurrenceEndedAt''"

text \<open>Setting a property: in place when the key is there, at the end otherwise.\<close>

fun patch_set :: "Patch_Field \<Rightarrow> TaskPatch \<Rightarrow> TaskPatch" where
  "patch_set f [] = [f]"
| "patch_set f (g # p) = (if key_of g = key_of f then f # p else g # patch_set f p)"

text \<open>Reading a property: \<open>None\<close> when the key is absent or holds \<^verbatim>\<open>undefined\<close>.\<close>

fun patch_title :: "TaskPatch \<Rightarrow> string option" where
  "patch_title [] = None"
| "patch_title (P_title v # p) = Some v"
| "patch_title (f # p) = patch_title p"

fun patch_description :: "TaskPatch \<Rightarrow> string option" where
  "patch_description [] = None"
| "patch_description (P_description v # p) = Some v"
| "patch_description (f # p) = patch_description p"

fun patch_urgency :: "TaskPatch \<Rightarrow> Urgency option" where
  "patch_urgency [] = None"
| "patch_urgency (P_urgency v # p) = Some v"
| "patch_urgency (f # p) = patch_urgency p"

fun patch_importance :: "TaskPatch \<Rightarrow> Importance option" where
  "patch_importance [] = None"
| "patch_importance (P_importance v # p) = Some v"
| "patch_importance (f # p) = patch_importance p"

fun patch_status :: "TaskPatch \<Rightarrow> TaskStatus option" where
  "patch_status [] = None"
| "patch_status (P_status v # p) = Some v"
| "patch_status (f # p) = patch_status p"

fun patch_date :: "TaskPatch \<Rightarrow> string option" where
  "patch_date [] = None"
| "patch_date (P_date v # p) = Some v"
| "patch_date (f # p) = patch_date p"

fun patch_frequency :: "TaskPatch \<Rightarrow> Frequency option" where
  "patch_frequency [] = None"
| "patch_frequency (P_frequency v # p) = Some v"
| "patch_frequency (f # p) = patch_frequency p"

fun patch_completionHistory :: "TaskPatch \<Rightarrow> (string \<rightharpoonup> TaskStatus) option" where
  "patch_completionHistory [] = None"
| "patch_completionHistory (P_completionHistory v # p) = v"
| "patch_completionHistory (f # p) = patch_completionHistory p"

text \<open>The spread \<^verbatim>\<open>{...t, ...taskData}\<close>: every key of the patch replaces the task's.\<close>

fun apply_field :: "Patch_Field \<Rightarrow> Task \<Rightarrow> Task" where
  "apply_field (P_id v) t = t\<lparr>task_id := v\<rparr>"
| "apply_field (P_title v) t = t\<lparr>title := v\<rparr>"
| "apply_field (P_description v) t = t\<lparr>description := v\<rparr>"
| "apply_field (P_urgency v) t = t\<lparr>urgency := v\<rparr>"
| "apply_field (P_importance v) t = t\<lparr>importance := v\<rparr>"
| "apply_field (P_status v) t = t\<lparr>status := v\<rparr>"
| "apply_field (P_date v) t = t\<lparr>date := v\<rparr>"
| "apply_field (P_frequency v) t = t\<lparr>frequency := v\<rparr>"
| "apply_field (P_createdAt v) t = t\<lparr>createdAt := v\<rparr>"
| "apply_field (P_updatedAt v) t = t\<lparr>updatedAt := v\<rparr>"
| "apply_field (P_completedAt v) t = t\<lparr>completedAt := v\<rparr>"
| "apply_field (P_history v) t = t\<lparr>history := v\<rparr>"
| "apply_field (P_completionHistory v) t = t\<lparr>completionHistory := v\<rparr>"
| "apply_field (P_recurrenceEndedAt v) t = t\<lparr>recurrenceEndedAt := v\<rparr>"

definition spread_patch :: "Task \<Rightarrow> TaskPatch \<Rightarrow> Task" where
  "spread_patch t p = foldl (\<lambda>acc f. apply_field f acc) t p"

subsection \<open>handleSaveTask\<close>

text \<open>
  The change detection of \<^verbatim>\<open>handleSaveTask\<close>, for one key: the old and the new value as
  \<^verbatim>\<open>String\<close> gives them, when the key is neither \<^verbatim>\<open>history\<close> nor
  \<^verbatim>\<open>completionHistory\<close>, the new value is defined, and it differs from the old one.
\<close>

definition String_opt_number :: "int option \<Rightarrow> string" where
  "String_opt_number v = (case v of None \<Rightarrow> ''undefined'' | Some n \<Rightarrow> string_of_int n)"

fun field_change :: "Task \<Rightarrow> Patch_Field \<Rightarrow> (string \<times> string) option" where
  "field_change t (P_id v) = (if v \<noteq> task_id t then Some (task_id t, v) else None)"
| "field_change t (P_title v) = (if v \<noteq> title t then Some (title t, v) else None)"
| "field_change t (P_description v) =
     (if v \<noteq> description t then Some (description t, v) else None)"
| "field_change t (P_urgency v) =
     (if v \<noteq> urgency t then Some (Urgency_value (urgency t), Urgency_value v) else None)"
| "field_change t (P_importance v) =
     (if v \<noteq> importance t then Some (Importance_value (importance t), Importance_value v)
      else None)"
| "field_change t (P_status v) =
     (if v \<noteq> status t then Some (TaskStatus_value (status t), TaskStatus_value v) else None)"
| "field_change t (P_date v) = (if v \<noteq> date t then Some (date t, v) else None)"
| "field_change t (P_frequency v) =
     (if v \<noteq> frequency t then Some (Frequency_value (frequency t), Frequency_value v)
      else None)"
| "field_change t (P_createdAt v) =
     (if v \<noteq> createdAt t then Some (string_of_int (createdAt t), string_of_int v) else None)"
| "field_change t (P_updatedAt v) =
     (if v \<noteq> updatedAt t then Some (string_of_int (updatedAt t), string_of_int v) else None)"
| "field_change t (P_completedAt None) = None"
| "field_change t (P_completedAt (Some v)) =
     (if Some v \<noteq> completedAt t then Some (String_opt_number (completedAt t), string_of_int v)
      else None)"
| "field_change t (P_history v) = None"
| "field_change t (P_completionHistory v) = None"
| "field_change t (P_recurrenceEndedAt None) = None"
| "field_change t (P_recurrenceEndedAt (Some v)) =
     (if Some v \<noteq> recurrenceEndedAt t
      then Some (String_opt_number (recurrenceEndedAt t), string_of_int v)
      else None)"

definition toUpperCase_char :: "char \<Rightarrow> char" where
  "toUpperCase_char c =
     (let n = (of_char c :: nat) in if 97 \<le> n \<and> n \<le> 122 then char_of (n - 32) else c)"

fun capitalize :: "string \<Rightarrow> string" where
  \<comment> \<open>\<^verbatim>\<open>key.charAt(0).toUpperCase() + key.slice(1)\<close>\<close>
  "capitalize [] = []"
| "capitalize (c # cs) = toUpperCase_char c # cs"

text \<open>
  \<^verbatim>\<open>generateId()\<close> and \<^verbatim>\<open>Date.now()\<close> read the environment. The identifier drawn
  for the entry of the \<open>j\<close>-th key while the task at position \<open>i\<close> is rewritten is
  \<open>gen i j\<close>; every run of the program corresponds to some such \<open>gen\<close>.
\<close>

definition detect_changes :: "(nat \<Rightarrow> string) \<Rightarrow> int \<Rightarrow> Task \<Rightarrow> TaskPatch \<Rightarrow> HistoryEntry list" where
  "detect_changes gen ts t p =
     concat (map (\<lambda>(j, f). case field_change t f of
                              None \<Rightarrow> []
                            | Some (ov, nv) \<Rightarrow>
                                [\<lparr>entry_id = gen j, timestamp = ts,
                                  field = capitalize (key_of f),
                                  oldValue = ov, newValue = nv, user = ''User''\<rparr>])
                 (enumerate 0 p))"

definition newCompletedAt :: "int \<Rightarrow> Task \<Rightarrow> TaskPatch \<Rightarrow> int option" where
  "newCompletedAt ts t p =
     (if patch_frequency p = Some NONE \<or> (patch_frequency p = None \<and> frequency t = NONE)
      then (if patch_status p = Some DONE \<and> status t \<noteq> DONE then Some ts
            else if patch_status p \<noteq> None \<and> patch_status p \<noteq> Some DONE then None
            else completedAt t)
      else completedAt t)"

definition update_task :: "(nat \<Rightarrow> string) \<Rightarrow> int \<Rightarrow> Task \<Rightarrow> TaskPatch \<Rightarrow> Task" where
  "update_task gen ts t p =
     (spread_patch t p)\<lparr>updatedAt := ts,
                        completedAt := newCompletedAt ts t p,
                        history := history t @ detect_changes gen ts t p\<rparr>"

text \<open>
  The new task of the \<^verbatim>\<open>else\<close> branch. \<^verbatim>\<open>a || b\<close> takes \<open>b\<close> when \<open>a\<close> is
  \<^verbatim>\<open>undefined\<close> or the empty string.
\<close>

definition string_or :: "string option \<Rightarrow> string \<Rightarrow> string" where
  "string_or a b = (case a of None \<Rightarrow> b | Some v \<Rightarrow> if v = [] then b else v)"

definition create_task :: "string \<Rightarrow> int \<Rightarrow> int \<Rightarrow> TaskPatch \<Rightarrow> Task" where
  "create_task newId ts currentDate p =
     (let st = (case patch_status p of None \<Rightarrow> TODO | Some v \<Rightarrow> v);
          fr = (case patch_frequency p of None \<Rightarrow> NONE | Some v \<Rightarrow> v)
      in \<lparr>task_id = newId,
          title = string_or (patch_title p) ''Untitled Task'',
          description = string_or (patch_description p) [],
          urgency = (case patch_urgency p of None \<Rightarrow> Urgency_LOW | Some v \<Rightarrow> v),
          importance = (case patch_importance p of None \<Rightarrow> Importance_LOW | Some v \<Rightarrow> v),
          status = st,
          date = string_or (patch_date p) (formatDate currentDate),
          frequency = fr,
          createdAt = ts,
          updatedAt = ts,
          completedAt = (if st = DONE \<and> fr = NONE then Some ts else None),
          history = [],
          completionHistory =
            Some (case patch_completionHistory p of None \<Rightarrow> Map.empty | Some l \<Rightarrow> l),
          recurrenceEndedAt = None\<rparr>)"

text \<open>
  \<^verbatim>\<open>handleSaveTask\<close>. Of \<^verbatim>\<open>editingTask\<close> the function reads the \<^verbatim>\<open>id\<close> only:
  \<open>editingId\<close> is \<open>None\<close> when there is no task being edited or it has no \<^verbatim>\<open>id\<close>,
  and an empty \<^verbatim>\<open>id\<close> is falsy as well.
\<close>

definition handleSaveTask ::
  "(nat \<Rightarrow> nat \<Rightarrow> string) \<Rightarrow> int \<Rightarrow> int \<Rightarrow> Task list \<Rightarrow> string option \<Rightarrow> TaskPatch \<Rightarrow> Task list" where
  "handleSaveTask gen ts currentDate tasks editingId taskData =
     (case editingId of
        Some eid \<Rightarrow>
          if eid \<noteq> [] then
            map (\<lambda>(i, t). if task_id t = eid then update_task (gen i) ts t taskData else t)
                (enumerate 0 tasks)
          else tasks @ [create_task (gen (length tasks) 0) ts currentDate taskData]
      | None \<Rightarrow> tasks @ [create_task (gen (length tasks) 0) ts currentDate taskData])"

subsection \<open>handleDragEnd\<close>

fun quadrant_of_id :: "string \<Rightarrow> QuadrantId option" where
  "quadrant_of_id s =
     (if s = ''q1'' then Some q1
      else if s = ''q2'' then Some q2
      else if s = ''q3'' then Some q3
      else if s = ''q4'' then Some q4
      else None)"

text \<open>
  The callback of \<^verbatim>\<open>prevTasks.map\<close> for the dragged task: \<open>newId\<close> is what
  \<^verbatim>\<open>generateId()\<close> returns there, \<open>t1\<close> and \<open>t2\<close> what the two calls of
  \<^verbatim>\<open>Date.now()\<close> return.
\<close>

definition relocate_task :: "string \<Rightarrow> int \<Rightarrow> int \<Rightarrow> Urgency \<times> Importance \<Rightarrow> Task \<Rightarrow> Task" where
  "relocate_task newId t1 t2 target t =
     (if urgency t = fst target \<and> importance t = snd target then t
      else
        (let historyEntry =
               \<lparr>entry_id = newId, timestamp = t1, field = ''Matrix Position'',
                oldValue = Urgency_value (urgency t) @ '' / '' @ Importance_value (importance t),
                newValue = Urgency_value (fst target) @ '' / '' @ Importance_value (snd target),
                user = ''User''\<rparr>
         in t\<lparr>urgency := fst target,
               importance := snd target,
               history := history t @ [historyEntry],
               updatedAt := t2\<rparr>))"

text \<open>
  \<^verbatim>\<open>handleDragEnd\<close>: \<open>activeId\<close> is \<^verbatim>\<open>active.id\<close>, \<open>overId\<close> is \<^verbatim>\<open>over.id\<close>, or
  \<open>None\<close> when the task was dropped outside every droppable area;
  \<open>quadrant_of_id\<close> is the lookup \<^verbatim>\<open>QUADRANTS[quadrantId]\<close>, which finds nothing for
  an identifier that is not one of the four quadrants'. \<open>gen i\<close> and \<open>clock i\<close> are
  what \<^verbatim>\<open>generateId()\<close> and the two calls of \<^verbatim>\<open>Date.now()\<close> return while the task at
  position \<open>i\<close> is rewritten.
\<close>

definition handleDragEnd ::
  "(nat \<Rightarrow> string) \<Rightarrow> (nat \<Rightarrow> int \<times> int) \<Rightarrow> Task list \<Rightarrow> string \<Rightarrow> string option \<Rightarrow> Task list" where
  "handleDragEnd gen clock tasks activeId overId =
     (case overId of
        None \<Rightarrow> tasks
      | Some oid \<Rightarrow>
          if activeId \<noteq> oid then
            (case quadrant_of_id oid of
               None \<Rightarrow> tasks
             | Some q \<Rightarrow>
                 map (\<lambda>(i, t). if task_id t = activeId
                                then relocate_task (gen i) (fst (clock i)) (snd (clock i))
                                       (QUADRANTS q) t
                                else t)
                     (enumerate 0 tasks))
          else tasks)"

subsection \<open>The series buttons of the task editor\<close>

text \<open>
  The form data the editor starts from when it opens on a task: the task's own keys
  (taken here in the order of the interface), the status replaced by the status of the
  occurrence at the contextual date.
\<close>

definition form_of_task :: "int \<Rightarrow> Task \<Rightarrow> int \<Rightarrow> TaskPatch" where
  "form_of_task tza task contextDate =
     [P_id (task_id task), P_title (title task), P_description (description task),
      P_urgency (urgency task), P_importance (importance task),
      P_status (getTaskStatus tza task contextDate), P_date (date task),
      P_frequency (frequency task), P_createdAt (createdAt task),
      P_updatedAt (updatedAt task), P_completedAt (completedAt task),
      P_history (history task),
      P_completionHistory
        (Some (case completionHistory task of None \<Rightarrow> Map.empty | Some l \<Rightarrow> l)),
      P_recurrenceEndedAt (recurrenceEndedAt task)]"

definition handleCompleteSeries :: "int \<Rightarrow> TaskPatch \<Rightarrow> int \<Rightarrow> int \<Rightarrow> TaskPatch" where
  "handleCompleteSeries tza formData contextDate now =
     (let finalData = patch_set (P_status DONE)
                        (patch_set (P_recurrenceEndedAt (Some now)) formData)
      in case patch_frequency finalData of
           None \<Rightarrow> finalData
         | Some fr \<Rightarrow>
             if fr \<noteq> NONE then
               (let key = getPeriodKey tza contextDate fr;
                    ledger = (case patch_completionHistory finalData of
                                None \<Rightarrow> Map.empty | Some l \<Rightarrow> l)
                in patch_set (P_completionHistory (Some (ledger(key \<mapsto> DONE)))) finalData)
             else finalData)"

definition handleResumeSeries :: "TaskPatch \<Rightarrow> TaskPatch" where
  "handleResumeSeries formData =
     patch_set (P_status TODO) (patch_set (P_recurrenceEndedAt None) formData)"

text \<open>
  Ending and resuming the series of the task at hand: the button's handler builds the
  patch from the form and passes it to \<^verbatim>\<open>onSave\<close>, which is \<^verbatim>\<open>handleSaveTask\<close> with
  the task as \<^verbatim>\<open>editingTask\<close>. \<open>now\<close> is the handler's \<^verbatim>\<open>Date.now()\<close>, \<open>ts\<close> the
  one of \<^verbatim>\<open>handleSaveTask\<close>.
\<close>

definition endSeries ::
  "int \<Rightarrow> (nat \<Rightarrow> nat \<Rightarrow> string) \<Rightarrow> int \<Rightarrow> int \<Rightarrow> int \<Rightarrow> Task list \<Rightarrow> Task \<Rightarrow> int \<Rightarrow> Task list" where
  "endSeries tza gen now ts currentDate tasks task contextDate =
     handleSaveTask gen ts currentDate tasks (Some (task_id task))
       (handleCompleteSeries tza (form_of_task tza task contextDate) contextDate now)"

definition resumeSeries ::
  "int \<Rightarrow> (nat \<Rightarrow> nat \<Rightarrow> string) \<Rightarrow> int \<Rightarrow> int \<Rightarrow> Task list \<Rightarrow> Task \<Rightarrow> int \<Rightarrow> Task list" where
  "resumeSeries tza gen ts currentDate tasks task contextDate =
     handleSaveTask gen ts currentDate tasks (Some (task_id task))
       (handleResumeSeries (form_of_task tza task contextDate))"


section \<open>Bulk exchange (lib/utils.ts, App.tsx)\<close>

definition dquote :: char where
  "dquote = CHR 0x22"

definition newline :: char where
  "newline = CHR 0x0A"

definition carriage_return :: char where
  "carriage_return = CHR 0x0D"

definition csv_headers :: "string list" where
  "csv_headers = [''id'', ''title'', ''description'', ''urgency'', ''importance'', ''status'',
                  ''date'', ''frequency'', ''createdAt'', ''updatedAt'', ''completedAt'',
                  ''recurrenceEndedAt'']"

text \<open>\<^verbatim>\<open>String((task as any)[header])\<close>, or \<open>None\<close> when the value is \<^verbatim>\<open>undefined\<close>.\<close>

definition task_column :: "Task \<Rightarrow> string \<Rightarrow> string option" where
  "task_column task header =
     (if header = ''id'' then Some (task_id task)
      else if header = ''title'' then Some (title task)
      else if header = ''description'' then Some (description task)
      else if header = ''urgency'' then Some (Urgency_value (urgency task))
      else if header = ''importance'' then Some (Importance_value (importance task))
      else if header = ''status'' then Some (TaskStatus_value (status task))
      else if header = ''date'' then Some (date task)
      else if header = ''frequency'' then Some (Frequency_value (frequency task))
      else if header = ''createdAt'' then Some (string_of_int (createdAt task))
      else if header = ''updatedAt'' then Some (string_of_int (updatedAt task))
      else if header = ''completedAt'' then map_option string_of_int (completedAt task)
      else if header = ''recurrenceEndedAt'' then map_option string_of_int (recurrenceEndedAt task)
      else None)"

fun join :: "string \<Rightarrow> string list \<Rightarrow> string" where
  "join sep [] = []"
| "join sep [x] = x"
| "join sep (x # y # ys) = x @ sep @ join sep (y # ys)"

definition double_quotes :: "string \<Rightarrow> string" where
  \<comment> \<open>\<^verbatim>\<open>s.replace(/"/g, '""')\<close>\<close>
  "double_quotes s = concat (map (\<lambda>c. if c = dquote then [dquote, dquote] else [c]) s)"

definition csv_cell :: "string option \<Rightarrow> string" where
  "csv_cell value =
     (case value of
        None \<Rightarrow> []
      | Some stringValue \<Rightarrow>
          if CHR '','' \<in> set stringValue \<or> dquote \<in> set stringValue
             \<or> newline \<in> set stringValue
          then [dquote] @ double_quotes stringValue @ [dquote]
          else stringValue)"

definition exportToCSV :: "Task list \<Rightarrow> string" where
  "exportToCSV tasks =
     (let rows = map (\<lambda>task. join '','' (map (\<lambda>header. csv_cell (task_column task header))
                                               csv_headers)) tasks
      in join [newline] (join '','' csv_headers # rows))"

text \<open>\<^verbatim>\<open>csvText.split(/\r?\n/)\<close>.\<close>

fun cons_first :: "char \<Rightarrow> string list \<Rightarrow> string list" where
  "cons_first c [] = [[c]]"
| "cons_first c (l # ls) = (c # l) # ls"

fun split_lines :: "string \<Rightarrow> string list" where
  "split_lines [] = [[]]"
| "split_lines [c] = (if c = newline then [[], []] else [[c]])"
| "split_lines (c # d # cs) =
     (if c = newline then [] # split_lines (d # cs)
      else if c = carriage_return \<and> d = newline then [] # split_lines cs
      else cons_first c (split_lines (d # cs)))"

text \<open>
  The loop of \<^verbatim>\<open>parseCSV\<close> over the characters of one line: \<open>inQuotes\<close>, the field
  read so far, and the rest of the line. A quote inside quotes that is followed by a
  quote stands for one quote, and the loop skips the second.
\<close>

fun parse_line :: "bool \<Rightarrow> string \<Rightarrow> string \<Rightarrow> string list" where
  "parse_line inQuotes current [] = [current]"
| "parse_line inQuotes current [c] =
     (if c = dquote then [current]
      else if c = CHR '','' \<and> \<not> inQuotes then [current, []]
      else [current @ [c]])"
| "parse_line inQuotes current (c # d # cs) =
     (if c = dquote then
        (if inQuotes \<and> d = dquote then parse_line inQuotes (current @ [dquote]) cs
         else parse_line (\<not> inQuotes) current (d # cs))
      else if c = CHR '','' \<and> \<not> inQuotes then current # parse_line inQuotes [] (d # cs)
      else parse_line inQuotes (current @ [c]) (d # cs))"

text \<open>
  The objects \<^verbatim>\<open>parseCSV\<close> builds have the keys the header line names: a list of
  properties in the order of their creation.
\<close>

datatype JSValue = JString string | JNumber "int option" | JUndefined | JEmptyArray | JEmptyObject

type_synonym JSObject = "(string \<times> JSValue) list"

fun obj_set :: "string \<Rightarrow> JSValue \<Rightarrow> JSObject \<Rightarrow> JSObject" where
  "obj_set k v [] = [(k, v)]"
| "obj_set k v ((k', v') # ob) = (if k' = k then (k, v) # ob else (k', v') # obj_set k v ob)"

definition obj_get :: "JSObject \<Rightarrow> string \<Rightarrow> JSValue" where
  "obj_get ob k = (case map_of ob k of None \<Rightarrow> JUndefined | Some v \<Rightarrow> v)"

definition timestamp_headers :: "string list" where
  "timestamp_headers = [''createdAt'', ''updatedAt'', ''completedAt'', ''recurrenceEndedAt'']"

definition parse_record :: "string list \<Rightarrow> string \<Rightarrow> JSObject" where
  "parse_record headers line =
     (let values = parse_line False [] line
      in foldl (\<lambda>task (index, header).
                  if index < length values then
                    (let val = values ! index
                     in if header \<in> set timestamp_headers
                        then obj_set header (if val \<noteq> [] then JNumber (Number val) else JUndefined) task
                        else obj_set header (JString val) task)
                  else task)
               [(''history'', JEmptyArray), (''completionHistory'', JEmptyObject)]
               (enumerate 0 headers))"

definition parseCSV :: "string \<Rightarrow> JSObject list" where
  "parseCSV csvText =
     (let lines = split_lines csvText
      in if length lines < 2 then []
         else (let headers = map trim (split_on CHR '','' (hd lines))
               in map (parse_record headers) (filter (\<lambda>line. trim line \<noteq> []) (tl lines))))"

text \<open>
  \<^verbatim>\<open>handleMergeImport\<close> and \<^verbatim>\<open>handleReplaceImport\<close> build the same list
  \<^verbatim>\<open>tasksWithIds\<close> from the selected candidates, which the first appends to the
  collection and the second puts in its place: the candidates get a fresh \<^verbatim>\<open>id\<close> and
  \<^verbatim>\<open>updatedAt\<close>; a \<^verbatim>\<open>createdAt\<close> that is \<^verbatim>\<open>undefined\<close>, \<^verbatim>\<open>NaN\<close> or zero is
  replaced by the current time. As in \<^verbatim>\<open>handleDragEnd\<close>, \<open>gen i\<close> and \<open>clock i\<close> are
  what \<^verbatim>\<open>generateId()\<close> and the two calls of \<^verbatim>\<open>Date.now()\<close> return for the
  candidate at position \<open>i\<close>.
\<close>

definition js_truthy :: "JSValue \<Rightarrow> bool" where
  "js_truthy v =
     (case v of
        JString s \<Rightarrow> s \<noteq> []
      | JNumber n \<Rightarrow> (case n of None \<Rightarrow> False | Some k \<Rightarrow> k \<noteq> 0)
      | JUndefined \<Rightarrow> False
      | JEmptyArray \<Rightarrow> True
      | JEmptyObject \<Rightarrow> True)"

definition merge_candidate :: "string \<Rightarrow> int \<Rightarrow> int \<Rightarrow> JSObject \<Rightarrow> JSObject" where
  "merge_candidate newId t1 t2 t =
     obj_set ''completionHistory''
       (if js_truthy (obj_get t ''completionHistory'') then obj_get t ''completionHistory''
        else JEmptyObject)
       (obj_set ''history''
          (if js_truthy (obj_get t ''history'') then obj_get t ''history'' else JEmptyArray)
          (obj_set ''updatedAt'' (JNumber (Some t2))
             (obj_set ''createdAt''
                (if js_truthy (obj_get t ''createdAt'') then obj_get t ''createdAt''
                 else JNumber (Some t1))
                (obj_set ''id'' (JString newId) t))))"

definition tasksWithIds :: "(nat \<Rightarrow> string) \<Rightarrow> (nat \<Rightarrow> int \<times> int) \<Rightarrow> JSObject list \<Rightarrow> JSObject list" where
  "tasksWithIds gen clock selectedTasks =
     map (\<lambda>(i, t). merge_candidate (gen i) (fst (clock i)) (snd (clock i)) t)
         (enumerate 0 selectedTasks)"

text \<open>The fields of a task the round trip is about, as the values an import gives.\<close>

definition visible_fields :: "Task \<Rightarrow> JSValue list" where
  "visible_fields t =
     [JString (title t), JString (description t), JString (Urgency_value (urgency t)),
      JString (Importance_value (importance t)), JString (TaskStatus_value (status t)),
      JString (date t), JString (Frequency_value (frequency t))]"

definition visible_fields_of_object :: "JSObject \<Rightarrow> JSValue list" where
  "visible_fields_of_object ob =
     map (obj_get ob) [''title'', ''description'', ''urgency'', ''importance'', ''status'',
                       ''date'', ''frequency'']"

definition csv_round_trip :: "(nat \<Rightarrow> string) \<Rightarrow> (nat \<Rightarrow> int \<times> int) \<Rightarrow> Task list \<Rightarrow> JSObject list" where
  "csv_round_trip gen clock tasks = tasksWithIds gen clock (parseCSV (exportToCSV tasks))"


text \<open>
  Notions for the round trip: the text of a cell, the line \<^verbatim>\<open>exportToCSV\<close> writes
  for a task, the characters that need no quoting, the tasks none of whose free-text
  fields holds a line feed, and the value \<^verbatim>\<open>parseCSV\<close> stores for a timestamp column.
\<close>

definition cell_text :: "string option \<Rightarrow> string" where
  "cell_text v = (case v of None \<Rightarrow> [] | Some s \<Rightarrow> s)"

definition plain_char :: "char \<Rightarrow> bool" where
  "plain_char c = (c \<noteq> CHR '','' \<and> c \<noteq> dquote \<and> c \<noteq> newline \<and> c \<noteq> carriage_return)"

definition csv_row :: "Task \<Rightarrow> string" where
  "csv_row task = join '','' (map (\<lambda>header. csv_cell (task_column task header)) csv_headers)"

definition no_line_break :: "Task \<Rightarrow> bool" where
  "no_line_break task =
     (newline \<notin> set (task_id task) \<and> newline \<notin> set (title task)
      \<and> newline \<notin> set (description task) \<and> newline \<notin> set (date task))"

definition timestamp_cell :: "string \<Rightarrow> JSValue" where
  "timestamp_cell val = (if val \<noteq> [] then JNumber (Number val) else JUndefined)"


section \<open>The week number of the specification\<close>

text \<open>
  The specification asks for the ISO-8601 week: weeks run from Monday to Sunday, and
  week 1 of a year is the week that contains the year's first Thursday. The definitions
  below follow these words on day numbers (days since 1970-01-01, a Thursday);
  \<open>periodKey_Weekly\<close> is the weekly period key the specification describes, to be
  compared with what \<^verbatim>\<open>getPeriodKey\<close> computes.
\<close>

definition week_monday :: "int \<Rightarrow> int" where
  "week_monday n = n - (n + 3) mod 7"

definition first_thursday :: "int \<Rightarrow> int" where
  "first_thursday y = DayFromYear y + (- DayFromYear y) mod 7"

definition iso_week1_monday :: "int \<Rightarrow> int" where
  "iso_week1_monday y = week_monday (first_thursday y)"

definition iso_week_year :: "int \<Rightarrow> int" where
  "iso_week_year n =
     (let y = YearFromTime (n * msPerDay)
      in if iso_week1_monday (y + 1) \<le> n then y + 1
         else if iso_week1_monday y \<le> n then y
         else y - 1)"

definition iso_week_number :: "int \<Rightarrow> int" where
  "iso_week_number n = (week_monday n - iso_week1_monday (iso_week_year n)) div 7 + 1"

definition isoWeekNumber :: "int \<Rightarrow> int \<Rightarrow> int" where
  "isoWeekNumber tza d = iso_week_number (Day (LocalTime tza d))"

definition periodKey_Weekly :: "int \<Rightarrow> int \<Rightarrow> string" where
  "periodKey_Weekly tza d =
     string_of_int (getFullYear tza d) @ ''-W'' @ string_of_int (isoWeekNumber tza d)"


section \<open>Well-formed stored dates\<close>

text \<open>
  The field \<^verbatim>\<open>date\<close> of a task is an ISO date string \<^verbatim>\<open>YYYY-MM-DD\<close> (\<^verbatim>\<open>types.ts\<close>): the
  year on four digits, the month (1 to 12) and the day of the month on two, as the date
  input of the editor and \<^verbatim>\<open>formatDate\<close> write them. \<open>valid_date\<close> says that the three
  numbers name a day of the calendar, in a year that \<^verbatim>\<open>new Date(y, m, d)\<close> takes as it is
  (a year from 0 to 99 is read as 1900 + y). \<open>local_midnight\<close> is the instant at which
  that day begins in the time zone.
\<close>

definition date_string :: "int \<Rightarrow> int \<Rightarrow> int \<Rightarrow> string" where
  "date_string y m d = pad_zeros y 4 @ ''-'' @ pad_zeros m 2 @ ''-'' @ pad_zeros d 2"

definition local_midnight :: "int \<Rightarrow> int \<Rightarrow> int \<Rightarrow> int \<Rightarrow> int" where
  "local_midnight tza y m d = UTC tza (MakeDate (MakeDay y (m - 1) d) 0)"

definition valid_date :: "int \<Rightarrow> int \<Rightarrow> int \<Rightarrow> bool" where
  "valid_date y m d =
     (100 \<le> y \<and> 1 \<le> m \<and> m \<le> 12 \<and> 1 \<le> d
      \<and> d \<le> month_length (if DaysInYear y = 366 then 1 else 0) (m - 1))"


section \<open>Example inputs\<close>

text \<open>
  The instants used below, in a host whose local time is UTC (\<open>tza = 0\<close>):
  \<open>1704240000000\<close> is 2024-01-03, \<open>1704844800000\<close> is 2024-01-10,
  \<open>1705449600000\<close> is 2024-01-17, \<open>1706659200000\<close> is 2024-01-31,
  \<open>1711843200000\<close> is 2024-03-31 and \<open>1714435200000\<close> is 2024-04-30, each at 00:00;
  \<open>1704067200000\<close> is 2024-01-01, \<open>1704585600000\<close> is 2024-01-07 (a Sunday) and
  \<open>1704931200000\<close> is 2024-01-11 at 00:00, \<open>1704888000000\<close> is 2024-01-10 at 12:00
  and \<open>1705752000000\<close> is 2024-01-20 at 12:00; \<open>1678838400000\<close> is 2023-03-15,
  \<open>1685577600000\<close> is 2023-06-01, \<open>1709164800000\<close> is 2024-02-29,
  \<open>1735689600000\<close> is 2025-01-01 and \<open>1751328000000\<close> is 2025-07-01 at 00:00, and
  \<open>1767225599999\<close> is the last millisecond of 2025.
\<close>

definition example_task :: Task where
  "example_task =
     \<lparr>task_id = ''k3x9a1b'', title = ''Water the plants'', description = [],
      urgency = Urgency_LOW, importance = Importance_LOW, status = IN_PROGRESS,
      date = ''2024-01-03'', frequency = WEEKLY, createdAt = 1704240000000,
      updatedAt = 1704240000000, completedAt = None, history = [],
      completionHistory = Some [''2024-W2'' \<mapsto> DONE], recurrenceEndedAt = None\<rparr>"


definition example_one_off_ended :: Task where
  "example_one_off_ended =
     example_task\<lparr>date := ''2024-01-10'', frequency := NONE,
                  recurrenceEndedAt := Some 1704240000000\<rparr>"

definition example_one_off_zero :: Task where
  "example_one_off_zero =
     example_task\<lparr>date := ''2024-01-10'', frequency := NONE, recurrenceEndedAt := Some 0\<rparr>"

definition example_other :: Task where
  "example_other = example_task\<lparr>task_id := ''p7m2q4z'', title := ''File the report''\<rparr>"

definition example_logged :: Task where
  "example_logged =
     example_task\<lparr>title := ''Draft'',
                  history := [\<lparr>entry_id = ''e1'', timestamp = 1704240000000,
                               field = ''Status'', oldValue = ''To Do'',
                               newValue = ''In Progress'', user = ''User''\<rparr>]\<rparr>"

definition example_two_lines :: Task where
  "example_two_lines = example_task\<lparr>description := ''soil'' @ [newline] @ ''water''\<rparr>"

definition example_quoted :: Task where
  "example_quoted =
     example_task\<lparr>title := ''a, '' @ [dquote] @ ''b'' @ [dquote], description := [dquote]\<rparr>"

definition example_daily :: Task where
  "example_daily = example_task\<lparr>date := ''2024-01-01'', frequency := DAILY\<rparr>"

definition example_ended :: Task where
  "example_ended = example_task\<lparr>status := DONE, recurrenceEndedAt := Some 1704844800000\<rparr>"

definition example_yearly :: Task where
  "example_yearly = example_task\<lparr>date := ''2023-03-15'', frequency := YEARLY\<rparr>"

definition example_leap_day :: Task where
  "example_leap_day = example_task\<lparr>date := ''2024-02-29'', frequency := YEARLY\<rparr>"

definition example_yearly_ended :: Task where
  "example_yearly_ended = example_yearly\<lparr>recurrenceEndedAt := Some 1685577600000\<rparr>"

definition example_gen :: "nat \<Rightarrow> string" where
  "example_gen i = ''h'' @ string_of_int (int i)"

definition example_gen2 :: "nat \<Rightarrow> nat \<Rightarrow> string" where
  "example_gen2 i j = ''h'' @ string_of_int (int i) @ ''x'' @ string_of_int (int j)"

definition example_clock :: "nat \<Rightarrow> int \<times> int" where
  "example_clock i = (1704844800000 + int i, 1704844800001 + int i)"


section \<open>Facts about the calendar functions\<close>

lemma setHours0_Day: "Day (LocalTime tza (setHours0 tza t)) = Day (LocalTime tza t)"
  by (simp add: setHours0_def UTC_def LocalTime_def MakeDate_def Day_def msPerDay_def)

lemma setHours0_idem: "setHours0 tza (setHours0 tza t) = setHours0 tza t"
  using setHours0_Day [of tza t] by (simp add: setHours0_def)

lemma setHours0_mono: "a \<le> b \<Longrightarrow> setHours0 tza a \<le> setHours0 tza b"
proof -
  assume "a \<le> b"
  then have "(a + tza) div msPerDay \<le> (b + tza) div msPerDay"
    by (intro zdiv_mono1) (simp_all add: msPerDay_def)
  then show ?thesis
    by (simp add: setHours0_def UTC_def LocalTime_def MakeDate_def Day_def msPerDay_def)
qed

lemma Year_cong: "Day s = Day t \<Longrightarrow> YearFromTime s = YearFromTime t"
  by (simp add: YearFromTime_def)

lemma Date_cong: "Day s = Day t \<Longrightarrow> DateFromTime s = DateFromTime t"
  by (simp add: DateFromTime_def MonthFromTime_def DayWithinYear_def InLeapYear_def
                YearFromTime_def)

lemma Month_cong: "Day s = Day t \<Longrightarrow> MonthFromTime s = MonthFromTime t"
  by (simp add: MonthFromTime_def DayWithinYear_def InLeapYear_def YearFromTime_def)

lemma getDate_setHours0: "getDate tza (setHours0 tza t) = getDate tza t"
  unfolding getDate_def by (rule Date_cong) (rule setHours0_Day)

lemma getMonth_setHours0: "getMonth tza (setHours0 tza t) = getMonth tza t"
  unfolding getMonth_def by (rule Month_cong) (rule setHours0_Day)

lemma parseLocalTaskDate_midnight:
  "parseLocalTaskDate tza s = Some a \<Longrightarrow> setHours0 tza a = a"
  by (auto simp: parseLocalTaskDate_def Let_def setHours0_idem)

lemma InLeapYear_cases: "InLeapYear t = 0 \<or> InLeapYear t = 1"
  by (simp add: InLeapYear_def)


lemma setHours0_add_day: "setHours0 tza (t + msPerDay) = setHours0 tza t + msPerDay"
proof -
  have ne: "msPerDay \<noteq> 0" by (simp add: msPerDay_def)
  have e: "t + msPerDay + tza = (t + tza) + msPerDay" by simp
  show ?thesis
    unfolding setHours0_def UTC_def LocalTime_def MakeDate_def Day_def e div_add_self2 [OF ne]
    by (simp add: algebra_simps)
qed

text \<open>
  \<^verbatim>\<open>YearFromTime\<close> is what ECMAScript defines: the year whose first day is the last
  first day of a year not after the day of \<open>t\<close>.
\<close>

lemma DaysInYear_bounds: "365 \<le> DaysInYear y \<and> DaysInYear y \<le> 366"
  by (simp add: DaysInYear_def)

lemma DayFromYear_pred: "DayFromYear (y - 1) = DayFromYear y - DaysInYear (y - 1)"
  using DayFromYear_Suc [of "y - 1"] by simp

lemma DayFromYear_1970: "DayFromYear 1970 = 0"
  by (simp add: DayFromYear_def)

lemma DayFromYear_upper: "0 \<le> k \<Longrightarrow> DayFromYear (1970 + k) \<le> 366 * k"
proof (induction k rule: int_ge_induct)
  case base
  then show ?case by (simp add: DayFromYear_1970)
next
  case (step i)
  have "DayFromYear (1970 + (i + 1)) = DayFromYear (1970 + i) + DaysInYear (1970 + i)"
    using DayFromYear_Suc [of "1970 + i"] by (simp add: add.assoc)
  then show ?case
    using step.IH DaysInYear_bounds [of "1970 + i"] by simp
qed

lemma DayFromYear_lower: "k \<le> 0 \<Longrightarrow> DayFromYear (1970 + k) \<le> 365 * k"
proof (induction k rule: int_le_induct)
  case base
  then show ?case by (simp add: DayFromYear_1970)
next
  case (step i)
  have "DayFromYear (1970 + (i - 1)) = DayFromYear (1970 + i) - DaysInYear (1970 + i - 1)"
    using DayFromYear_pred [of "1970 + i"] by (simp add: algebra_simps)
  then show ?case
    using step.IH DaysInYear_bounds [of "1970 + i - 1"] by simp
qed

lemma year_estimate_le: "DayFromYear (year_estimate d) \<le> d"
proof (cases "0 \<le> d")
  case True
  then have k: "0 \<le> d div 366" by simp
  have "366 * (d div 366) \<le> d"
    using mult_div_mod_eq [of 366 d] pos_mod_sign [of 366 d] by linarith
  with DayFromYear_upper [OF k] True show ?thesis
    by (simp add: year_estimate_def)
next
  case False
  then have k: "d div 365 \<le> 0" by (simp add: div_nonpos_pos_le0)
  have "365 * (d div 365) \<le> d"
    using mult_div_mod_eq [of 365 d] pos_mod_sign [of 365 d] by linarith
  with DayFromYear_lower [OF k] False show ?thesis
    by (simp add: year_estimate_def)
qed

lemma year_search_spec:
  "DayFromYear y \<le> d \<Longrightarrow>
     DayFromYear (year_search d y) \<le> d \<and> d < DayFromYear (year_search d y + 1)"
proof (induction d y rule: year_search.induct)
  case (1 d y)
  show ?case
  proof (cases "DayFromYear (y + 1) \<le> d")
    case True
    with 1 show ?thesis by (subst (1 2) year_search.simps) simp
  next
    case False
    with 1 show ?thesis by (subst (1 2) year_search.simps) simp
  qed
qed

lemma YearFromTime_spec:
  "DayFromYear (YearFromTime t) \<le> Day t \<and> Day t < DayFromYear (YearFromTime t + 1)"
  unfolding YearFromTime_def by (rule year_search_spec) (rule year_estimate_le)

lemma DayFromYear_mono: "y \<le> z \<Longrightarrow> DayFromYear y \<le> DayFromYear z"
proof (induction z rule: int_ge_induct)
  case base
  then show ?case by simp
next
  case (step i)
  then show ?case
    using DayFromYear_Suc [of i] DaysInYear_bounds [of i] by simp
qed

lemma YearFromTime_eqI:
  assumes "DayFromYear y \<le> Day t" and "Day t < DayFromYear (y + 1)"
  shows "YearFromTime t = y"
proof (rule ccontr)
  assume ne: "YearFromTime t \<noteq> y"
  let ?z = "YearFromTime t"
  have s: "DayFromYear ?z \<le> Day t" "Day t < DayFromYear (?z + 1)"
    using YearFromTime_spec [of t] by simp_all
  show False
  proof (cases "?z < y")
    case True
    then have "DayFromYear (?z + 1) \<le> DayFromYear y" by (intro DayFromYear_mono) simp
    with s(2) assms(1) show False by simp
  next
    case False
    with ne have "y + 1 \<le> ?z" by simp
    then have "DayFromYear (y + 1) \<le> DayFromYear ?z" by (rule DayFromYear_mono)
    with s(1) assms(2) show False by simp
  qed
qed

lemma DayWithinYear_range:
  "0 \<le> DayWithinYear t \<and> DayWithinYear t < DaysInYear (YearFromTime t)"
  using YearFromTime_spec [of t] DayFromYear_Suc [of "YearFromTime t"]
  by (simp add: DayWithinYear_def)

lemma month_cases:
  fixes m :: int
  assumes "0 \<le> m" and "m \<le> 11"
  shows "m = 0 \<or> m = 1 \<or> m = 2 \<or> m = 3 \<or> m = 4 \<or> m = 5 \<or> m = 6 \<or> m = 7
         \<or> m = 8 \<or> m = 9 \<or> m = 10 \<or> m = 11"
  using assms by arith

lemma leap_flag: "DaysInYear y = 365 + (if DaysInYear y = 366 then 1 else 0)"
  by (simp add: DaysInYear_def)

lemma day_in_year_of_month:
  fixes l m dd :: int
  assumes "l = 0 \<or> l = 1" and "0 \<le> m" and "m \<le> 11"
    and "1 \<le> dd" and "dd \<le> month_length l m"
  shows "0 \<le> month_start l m + dd - 1 \<and> month_start l m + dd - 1 < 365 + l"
  using month_cases [OF assms(2,3)] assms(1,4,5)
  by (elim disjE; simp add: month_start_def month_length_def)

lemma month_of_day_in_year:
  fixes l m dd :: int
  assumes "l = 0 \<or> l = 1" and "0 \<le> m" and "m \<le> 11"
    and "1 \<le> dd" and "dd \<le> month_length l m"
  shows "(let d = month_start l m + dd - 1 in
          if d < 31 then 0
          else if d < 59 + l then 1
          else if d < 90 + l then 2
          else if d < 120 + l then 3
          else if d < 151 + l then 4
          else if d < 181 + l then 5
          else if d < 212 + l then 6
          else if d < 243 + l then 7
          else if d < 273 + l then 8
          else if d < 304 + l then 9
          else if d < 334 + l then 10
          else 11) = m"
  using month_cases [OF assms(2,3)] assms(1,4,5)
  by (elim disjE; simp add: month_start_def month_length_def Let_def)

lemma date_of_day_in_year:
  fixes l m dd :: int
  assumes "0 \<le> m" and "m \<le> 11"
  shows "(let d = month_start l m + dd - 1 in
          if m = 0 then d + 1
          else if m = 1 then d - 30
          else if m = 2 then d - 58 - l
          else if m = 3 then d - 89 - l
          else if m = 4 then d - 119 - l
          else if m = 5 then d - 150 - l
          else if m = 6 then d - 180 - l
          else if m = 7 then d - 211 - l
          else if m = 8 then d - 242 - l
          else if m = 9 then d - 272 - l
          else if m = 10 then d - 303 - l
          else d - 333 - l) = dd"
  using month_cases [OF assms]
  by (elim disjE; simp add: month_start_def Let_def)

lemma date_valid:
  "1 \<le> DateFromTime t \<and> DateFromTime t \<le> month_length (InLeapYear t) (MonthFromTime t)"
proof -
  have r: "0 \<le> DayWithinYear t" "DayWithinYear t < 365 + InLeapYear t"
    using DayWithinYear_range [of t] leap_flag [of "YearFromTime t"]
    by (simp_all add: InLeapYear_def)
  have m: "0 \<le> MonthFromTime t" "MonthFromTime t \<le> 11"
    using MonthFromTime_range [of t] by simp_all
  have e: "DayWithinYear t = month_start (InLeapYear t) (MonthFromTime t) + DateFromTime t - 1"
    using month_start_date [of t] by simp
  have lo: "month_start (InLeapYear t) (MonthFromTime t) \<le> DayWithinYear t"
    using r(1) by (simp add: month_start_def MonthFromTime_def Let_def)
  have hi: "DayWithinYear t
              < month_start (InLeapYear t) (MonthFromTime t)
                + month_length (InLeapYear t) (MonthFromTime t)"
    using r(2) by (simp add: month_start_def month_length_def MonthFromTime_def Let_def)
  show ?thesis using e lo hi by simp
qed

lemma fields_of_MakeDay:
  assumes m: "0 \<le> m" "m \<le> 11"
    and d: "1 \<le> dd" "dd \<le> month_length (if DaysInYear y = 366 then 1 else 0) m"
    and t: "Day t = MakeDay y m dd"
  shows "YearFromTime t = y \<and> MonthFromTime t = m \<and> DateFromTime t = dd"
proof -
  define l :: int where "l = (if DaysInYear y = 366 then 1 else 0)"
  have l01: "l = 0 \<or> l = 1" by (simp add: l_def)
  have dl: "dd \<le> month_length l m" using d(2) by (simp add: l_def)
  have dm: "m div 12 = 0" "m mod 12 = m" using m by simp_all
  have day: "Day t = DayFromYear y + (month_start l m + dd - 1)"
    unfolding t MakeDay_def Let_def dm l_def by simp
  note w = day_in_year_of_month [OF l01 m d(1) dl]
  have yr: "YearFromTime t = y"
  proof (rule YearFromTime_eqI)
    show "DayFromYear y \<le> Day t" using day w by simp
    show "Day t < DayFromYear (y + 1)"
      using day w leap_flag [of y] by (simp add: DayFromYear_Suc l_def)
  qed
  have il: "InLeapYear t = l" by (simp add: InLeapYear_def yr l_def)
  have dw: "DayWithinYear t = month_start l m + dd - 1"
    by (simp add: DayWithinYear_def yr day)
  have mo: "MonthFromTime t = m"
    using month_of_day_in_year [OF l01 m d(1) dl]
    by (simp add: MonthFromTime_def il dw Let_def)
  have "DateFromTime t = dd"
    unfolding DateFromTime_def mo il dw Let_def
    using date_of_day_in_year [OF m, of l dd] by (simp add: Let_def)
  with yr mo show ?thesis by simp
qed

lemma msPerDay_pos: "0 < msPerDay"
  by (simp add: msPerDay_def)

lemma Day_MakeDate: "0 \<le> tod \<Longrightarrow> tod < msPerDay \<Longrightarrow> Day (MakeDate d tod) = d"
  using msPerDay_pos by (simp add: Day_def MakeDate_def div_pos_pos_trivial)

lemma LocalTime_UTC: "LocalTime tza (UTC tza x) = x"
  by (simp add: LocalTime_def UTC_def)

lemma TimeWithinDay_range: "0 \<le> TimeWithinDay t \<and> TimeWithinDay t < msPerDay"
  using msPerDay_pos by (simp add: TimeWithinDay_def)

lemma midnight_of_day: "setHours0 tza (UTC tza (MakeDate d 0)) = UTC tza (MakeDate d 0)"
  using msPerDay_pos by (simp add: setHours0_def LocalTime_UTC Day_MakeDate)

lemma MakeDay_january: "MakeDay y 0 dt = DayFromYear y + dt - 1"
  by (simp add: MakeDay_def month_start_def)

lemma year_interval:
  "view_interval tza YEAR cur =
     (UTC tza (MakeDate (DayFromYear (getFullYear tza cur)) 0),
      UTC tza (MakeDate (DayFromYear (getFullYear tza cur + 1) - 1) (msPerDay - 1)))"
proof -
  let ?lt = "LocalTime tza cur"
  have r: "0 \<le> TimeWithinDay ?lt" "TimeWithinDay ?lt < msPerDay"
    using TimeWithinDay_range [of ?lt] by simp_all
  have s: "setHours0 tza (setMonth tza cur 0 1)
             = UTC tza (MakeDate (DayFromYear (getFullYear tza cur)) 0)"
    by (simp add: setHours0_def setMonth_def Let_def LocalTime_UTC Day_MakeDate [OF r]
                  MakeDay_january getFullYear_def)
  have e: "endOfYear tza cur
             = UTC tza (MakeDate (DayFromYear (getFullYear tza cur + 1) - 1) (msPerDay - 1))"
    by (simp add: endOfYear_def setHours_end_def Let_def LocalTime_UTC Day_MakeDate [OF r]
                  MakeDay_january getFullYear_def)
  show ?thesis by (simp add: view_interval_def s e)
qed

lemma next_day_midnight: "setHours0 tza s = s \<Longrightarrow> next_day tza s = s + msPerDay"
  by (simp add: next_day_def setDate_shift setHours0_add_day)

lemma each_day_loop_mem:
  "setHours0 tza s = s \<Longrightarrow> s + int k * msPerDay \<le> e
     \<Longrightarrow> s + int k * msPerDay \<in> set (each_day_loop tza s e)"
proof (induction k arbitrary: s)
  case 0
  then show ?case by (subst each_day_loop.simps) simp
next
  case (Suc k)
  have mid: "setHours0 tza (s + msPerDay) = s + msPerDay"
    using Suc.prems(1) by (simp add: setHours0_add_day)
  have le: "(s + msPerDay) + int k * msPerDay \<le> e"
    using Suc.prems(2) by (simp add: algebra_simps)
  have "0 \<le> int k * msPerDay" using msPerDay_pos by simp
  then have "s \<le> e" using le msPerDay_pos by linarith
  moreover have "(s + msPerDay) + int k * msPerDay \<in> set (each_day_loop tza (s + msPerDay) e)"
    by (rule Suc.IH [OF mid le])
  ultimately show ?case
    by (subst each_day_loop.simps)
       (simp add: next_day_midnight [OF Suc.prems(1)] algebra_simps)
qed

lemma each_day_loop_bounds:
  "x \<in> set (each_day_loop tza s e) \<Longrightarrow> s \<le> x \<and> x \<le> e"
proof (induction tza s e rule: each_day_loop.induct)
  case (1 tza t endTime)
  show ?case
  proof (cases "t \<le> endTime")
    case True
    from "1.prems" have "x = t \<or> x \<in> set (each_day_loop tza (next_day tza t) endTime)"
      by (subst (asm) each_day_loop.simps) (simp add: True)
    then show ?thesis
      using "1.IH" [OF True] True next_day_greater [of t tza] by auto
  next
    case False
    with "1.prems" show ?thesis by (subst (asm) each_day_loop.simps) simp
  qed
qed

lemma task_start_midnight: "task_start tza s = Some a \<Longrightarrow> setHours0 tza a = a"
  by (auto simp: task_start_def new_Date_ymd_def Let_def midnight_of_day
           split: option.splits)

lemma parse_eq_task_start: "parseLocalTaskDate tza s = task_start tza s"
proof (cases "task_start tza s")
  case None
  then show ?thesis by (simp add: parseLocalTaskDate_def task_start_def Let_def)
next
  case (Some a)
  then have "parseLocalTaskDate tza s = Some (setHours0 tza a)"
    by (simp add: parseLocalTaskDate_def task_start_def Let_def)
  with Some task_start_midnight [OF Some] show ?thesis by simp
qed

lemma yearly_active_iff:
  assumes "frequency task = YEARLY" and "\<not> series_ended task"
  shows "isTaskActiveOnDate tza task x \<longleftrightarrow>
           (\<exists>a. task_start tza (date task) = Some a \<and> a \<le> setHours0 tza x
                \<and> getDate tza x = getDate tza a \<and> getMonth tza x = getMonth tza a)"
proof -
  have ne: "\<not> (case recurrenceEndedAt task of None \<Rightarrow> False
                | Some e \<Rightarrow> e \<noteq> 0 \<and> setHours0 tza x > setHours0 tza e)"
    using assms(2) by (auto simp: series_ended_def split: option.splits)
  show ?thesis
    using ne assms(1)
    by (cases "task_start tza (date task)")
       (auto simp: isTaskActiveOnDate_def Let_def js_lt_def js_eq_def getDate_setHours0
                   getMonth_setHours0 parse_eq_task_start)
qed

lemma Day_mono: "s \<le> t \<Longrightarrow> Day s \<le> Day t"
  unfolding Day_def by (rule zdiv_mono1) (simp_all add: msPerDay_def)

lemma MakeDate_mono:
  "d \<le> d' \<Longrightarrow> 0 \<le> tod' \<Longrightarrow> MakeDate d 0 \<le> MakeDate d' tod'"
  using msPerDay_pos by (simp add: MakeDate_def add_increasing2 mult_right_mono)

lemma midnight_as_day:
  "setHours0 tza a = a \<Longrightarrow> a = UTC tza (MakeDate (Day (LocalTime tza a)) 0)"
  by (simp add: setHours0_def)

lemma year_days_list:
  "eachDayOfInterval tza (fst (view_interval tza YEAR cur)) (snd (view_interval tza YEAR cur))
     = each_day_loop tza (UTC tza (MakeDate (DayFromYear (getFullYear tza cur)) 0))
         (UTC tza (MakeDate (DayFromYear (getFullYear tza cur + 1) - 1) (msPerDay - 1)))"
proof -
  let ?Y = "getFullYear tza cur"
  have "DayFromYear ?Y \<le> DayFromYear (?Y + 1) - 1"
    using DayFromYear_Suc [of ?Y] DaysInYear_bounds [of ?Y] by simp
  then have "MakeDate (DayFromYear ?Y) 0 \<le> MakeDate (DayFromYear (?Y + 1) - 1) (msPerDay - 1)"
    using msPerDay_pos by (intro MakeDate_mono) simp_all
  then have "\<not> UTC tza (MakeDate (DayFromYear ?Y) 0)
               > UTC tza (MakeDate (DayFromYear (?Y + 1) - 1) (msPerDay - 1))"
    by (simp add: UTC_def)
  then show ?thesis
    by (simp add: eachDayOfInterval_def year_interval Let_def midnight_of_day)
qed

lemma prefilter_of_occurrence:
  assumes f: "frequency task = YEARLY" and ne: "\<not> series_ended task"
    and occ: "occurs_in_interval tza task (fst (view_interval tza YEAR cur))
                (snd (view_interval tza YEAR cur))"
  shows "year_prefilter tza task (snd (view_interval tza YEAR cur))"
proof -
  let ?e = "snd (view_interval tza YEAR cur)"
  from occ obtain x where x: "x \<in> set (eachDayOfInterval tza (fst (view_interval tza YEAR cur)) ?e)"
    and act: "isTaskActiveOnDate tza task x"
    by (auto simp: occurs_in_interval_def list_ex_iff)
  from x have "x \<le> ?e"
    unfolding year_days_list using each_day_loop_bounds [of x] by (simp add: year_interval)
  moreover from act obtain a where a: "task_start tza (date task) = Some a"
    and le: "a \<le> setHours0 tza x"
    using yearly_active_iff [OF f ne] by blast
  moreover have "setHours0 tza x \<le> x" using setHours0_bounds [of tza x] by simp
  ultimately show ?thesis by (simp add: year_prefilter_def js_le_opt_def)
qed

lemma occurrence_of_prefilter:
  assumes f: "frequency task = YEARLY" and ne: "\<not> series_ended task"
    and a: "task_start tza (date task) = Some a"
    and feb: "\<not> (getMonth tza a = 1 \<and> getDate tza a = 29
                 \<and> DaysInYear (getFullYear tza cur) = 365)"
    and pre: "year_prefilter tza task (snd (view_interval tza YEAR cur))"
  shows "occurs_in_interval tza task (fst (view_interval tza YEAR cur))
           (snd (view_interval tza YEAR cur))"
proof -
  define Y where "Y = getFullYear tza cur"
  define la where "la = LocalTime tza a"
  define ma where "ma = MonthFromTime la"
  define da where "da = DateFromTime la"
  define l :: int where "l = (if DaysInYear Y = 366 then 1 else 0)"
  define cday where "cday = MakeDay Y ma da"
  define c where "c = UTC tza (MakeDate cday 0)"
  define s where "s = UTC tza (MakeDate (DayFromYear Y) 0)"
  define e where "e = UTC tza (MakeDate (DayFromYear (Y + 1) - 1) (msPerDay - 1))"
  have mid: "setHours0 tza a = a" by (rule task_start_midnight [OF a])
  have a_day: "a = UTC tza (MakeDate (Day la) 0)"
    unfolding la_def by (rule midnight_as_day [OF mid])
  have ale: "a \<le> e"
    using pre a by (simp add: year_prefilter_def js_le_opt_def year_interval e_def Y_def)
  \<comment> \<open>the anchor's day is not after the last day of the year\<close>
  have "la \<le> MakeDate (DayFromYear (Y + 1) - 1) (msPerDay - 1)"
    using ale by (simp add: la_def e_def LocalTime_def UTC_def)
  then have "Day la \<le> Day (MakeDate (DayFromYear (Y + 1) - 1) (msPerDay - 1))"
    by (rule Day_mono)
  then have dla: "Day la < DayFromYear (Y + 1)"
    using msPerDay_pos by (simp add: Day_MakeDate)
  have ya: "YearFromTime la \<le> Y"
  proof (rule ccontr)
    assume "\<not> YearFromTime la \<le> Y"
    then have "DayFromYear (Y + 1) \<le> DayFromYear (YearFromTime la)"
      by (intro DayFromYear_mono) simp
    with YearFromTime_spec [of la] dla show False by simp
  qed
  \<comment> \<open>the anchor's month and day exist in the viewed year\<close>
  have m: "0 \<le> ma" "ma \<le> 11"
    using MonthFromTime_range [of la] by (simp_all add: ma_def)
  have v: "1 \<le> da" "da \<le> month_length (InLeapYear la) ma"
    using date_valid [of la] by (simp_all add: da_def ma_def)
  have l01: "l = 0 \<or> l = 1" by (simp add: l_def)
  have "\<not> (ma = 1 \<and> da = 29 \<and> l = 0)"
    using feb leap_flag [of Y]
    by (auto simp: ma_def da_def la_def l_def Y_def getMonth_def getDate_def)
  then have dl: "da \<le> month_length l ma"
    using v(2) l01 InLeapYear_cases [of la] by (auto simp: month_length_def split: if_splits)
  have dl': "da \<le> month_length (if DaysInYear Y = 366 then 1 else 0) ma"
    using dl by (simp add: l_def)
  have lc: "Day (LocalTime tza c) = cday"
    using msPerDay_pos by (simp add: c_def LocalTime_UTC Day_MakeDate)
  have fc: "YearFromTime (LocalTime tza c) = Y" "MonthFromTime (LocalTime tza c) = ma"
    "DateFromTime (LocalTime tza c) = da"
    using fields_of_MakeDay [OF m v(1) dl', of "LocalTime tza c"] lc
    by (simp_all add: cday_def)
  have dm: "ma div 12 = 0" "ma mod 12 = ma" using m by simp_all
  have cd: "cday = DayFromYear Y + (month_start l ma + da - 1)"
    unfolding cday_def MakeDay_def Let_def dm l_def by simp
  note w = day_in_year_of_month [OF l01 m v(1) dl]
  have lo: "DayFromYear Y \<le> cday" using cd w by simp
  have hi: "cday \<le> DayFromYear (Y + 1) - 1"
    using cd w leap_flag [of Y] by (simp add: DayFromYear_Suc l_def)
  \<comment> \<open>that day is one of the days of the interval\<close>
  have "c = s + int (nat (cday - DayFromYear Y)) * msPerDay"
    using lo by (simp add: c_def s_def UTC_def MakeDate_def algebra_simps)
  moreover have "c \<le> e"
    using MakeDate_mono [OF hi, of "msPerDay - 1"] msPerDay_pos
    by (simp add: c_def e_def UTC_def)
  moreover have "setHours0 tza s = s" unfolding s_def by (rule midnight_of_day)
  ultimately have mem: "c \<in> set (each_day_loop tza s e)"
    using each_day_loop_mem [of tza s "nat (cday - DayFromYear Y)" e] by simp
  \<comment> \<open>and the task is active on it\<close>
  have "Day la \<le> cday"
  proof (cases "YearFromTime la = Y")
    case True
    have "MakeDay (YearFromTime la) (MonthFromTime la) (DateFromTime la + 0) = Day la + 0"
      by (rule MakeDay_roundtrip)
    then show ?thesis by (simp add: cday_def ma_def da_def True)
  next
    case False
    with ya have "YearFromTime la + 1 \<le> Y" by simp
    then have "DayFromYear (YearFromTime la + 1) \<le> DayFromYear Y" by (rule DayFromYear_mono)
    with YearFromTime_spec [of la] lo show ?thesis by simp
  qed
  then have "MakeDate (Day la) 0 \<le> MakeDate cday 0" by (rule MakeDate_mono) simp
  then have ac: "a \<le> c" by (subst a_day) (simp add: c_def UTC_def)
  have cm: "setHours0 tza c = c" unfolding c_def by (rule midnight_of_day)
  have "isTaskActiveOnDate tza task c"
    unfolding yearly_active_iff [OF f ne]
    using a ac cm fc
    by (simp add: getDate_def getMonth_def da_def ma_def la_def)
  with mem show ?thesis
    unfolding occurs_in_interval_def year_days_list list_ex_iff s_def e_def Y_def by blast
qed

lemma year_days_in_year:
  assumes "x \<in> set (eachDayOfInterval tza (fst (view_interval tza YEAR cur))
                       (snd (view_interval tza YEAR cur)))"
  shows "getFullYear tza x = getFullYear tza cur
         \<and> fst (view_interval tza YEAR cur) \<le> x"
proof -
  let ?Y = "getFullYear tza cur"
  have b: "UTC tza (MakeDate (DayFromYear ?Y) 0) \<le> x"
    "x \<le> UTC tza (MakeDate (DayFromYear (?Y + 1) - 1) (msPerDay - 1))"
    using assms each_day_loop_bounds [of x] unfolding year_days_list by simp_all
  have "MakeDate (DayFromYear ?Y) 0 \<le> LocalTime tza x"
    using b(1) by (simp add: UTC_def LocalTime_def)
  then have "Day (MakeDate (DayFromYear ?Y) 0) \<le> Day (LocalTime tza x)" by (rule Day_mono)
  then have lo: "DayFromYear ?Y \<le> Day (LocalTime tza x)"
    using msPerDay_pos by (simp add: Day_MakeDate)
  have "LocalTime tza x \<le> MakeDate (DayFromYear (?Y + 1) - 1) (msPerDay - 1)"
    using b(2) by (simp add: UTC_def LocalTime_def)
  then have "Day (LocalTime tza x) \<le> Day (MakeDate (DayFromYear (?Y + 1) - 1) (msPerDay - 1))"
    by (rule Day_mono)
  then have hi: "Day (LocalTime tza x) < DayFromYear (?Y + 1)"
    using msPerDay_pos by (simp add: Day_MakeDate)
  have "YearFromTime (LocalTime tza x) = ?Y" by (rule YearFromTime_eqI [OF lo hi])
  then show ?thesis using b(1) by (simp add: getFullYear_def [of tza x] year_interval)
qed


section \<open>Facts about the mutation engine\<close>

lemma handleSaveTask_nth:
  assumes "i < length tasks"
  shows "handleSaveTask gen ts cur tasks eid p ! i =
           (if (\<exists>e. eid = Some e \<and> e \<noteq> [] \<and> task_id (tasks ! i) = e)
            then update_task (gen i) ts (tasks ! i) p else tasks ! i)"
  using assms
  by (auto simp: handleSaveTask_def nth_enumerate_eq nth_append split: option.splits)

lemma handleDragEnd_nth:
  assumes "i < length tasks"
  shows "handleDragEnd gen clock tasks activeId overId ! i =
           (case overId of
              None \<Rightarrow> tasks ! i
            | Some oid \<Rightarrow>
                (case quadrant_of_id oid of
                   None \<Rightarrow> tasks ! i
                 | Some q \<Rightarrow>
                     if activeId \<noteq> oid \<and> task_id (tasks ! i) = activeId
                     then relocate_task (gen i) (fst (clock i)) (snd (clock i)) (QUADRANTS q)
                            (tasks ! i)
                     else tasks ! i))"
  using assms
  by (auto simp: handleDragEnd_def nth_enumerate_eq split: option.splits
           simp del: quadrant_of_id.simps)

lemma handleDragEnd_length:
  "length (handleDragEnd gen clock tasks activeId overId) = length tasks"
  by (auto simp: handleDragEnd_def split: option.splits simp del: quadrant_of_id.simps)

lemma history_update_task:
  "history (update_task g ts t p) = history t @ detect_changes g ts t p"
  by (simp add: update_task_def)

lemma history_relocate_task: "prefix (history t) (history (relocate_task n a b tg t))"
  by (simp add: relocate_task_def Let_def)

lemma spread_form_complete:
  "spread_patch stored (handleCompleteSeries tza (form_of_task tza t D) D now) =
     (if frequency t = NONE
      then t\<lparr>status := DONE, recurrenceEndedAt := Some now,
              completionHistory :=
                Some (case completionHistory t of None \<Rightarrow> Map.empty | Some l \<Rightarrow> l)\<rparr>
      else t\<lparr>status := DONE, recurrenceEndedAt := Some now,
              completionHistory :=
                Some ((case completionHistory t of None \<Rightarrow> Map.empty | Some l \<Rightarrow> l)
                        (getPeriodKey tza D (frequency t) \<mapsto> DONE))\<rparr>)"
  by (cases stored; cases t)
     (simp add: handleCompleteSeries_def form_of_task_def spread_patch_def Let_def)


section \<open>Facts about the bulk exchange\<close>

lemma parse_line_plain_char:
  "c \<noteq> dquote \<Longrightarrow> c \<noteq> CHR '','' \<or> q \<Longrightarrow>
     parse_line q cur (c # cs) = parse_line q (cur @ [c]) cs"
  by (cases cs) auto

lemma parse_line_comma: "parse_line False cur (CHR '','' # cs) = cur # parse_line False [] cs"
  by (cases cs) (auto simp: dquote_def)

lemma parse_line_open_quote: "parse_line False cur (dquote # cs) = parse_line True cur cs"
  by (cases cs) auto

lemma parse_line_close_quote:
  "cs = [] \<or> hd cs \<noteq> dquote \<Longrightarrow> parse_line True cur (dquote # cs) = parse_line False cur cs"
  by (cases cs) auto

lemma parse_line_double_quote:
  "parse_line True cur (dquote # dquote # cs) = parse_line True (cur @ [dquote]) cs"
  by simp

lemma parse_plain:
  "CHR '','' \<notin> set s \<Longrightarrow> dquote \<notin> set s \<Longrightarrow>
     parse_line False cur (s @ rest) = parse_line False (cur @ s) rest"
proof (induction s arbitrary: cur)
  case Nil
  then show ?case by simp
next
  case (Cons c s)
  have "parse_line False cur (c # s @ rest) = parse_line False (cur @ [c]) (s @ rest)"
    using Cons.prems by (intro parse_line_plain_char) auto
  also have "\<dots> = parse_line False ((cur @ [c]) @ s) rest"
    using Cons.prems by (intro Cons.IH) auto
  finally show ?case by simp
qed

lemma parse_quoted:
  "rest = [] \<or> hd rest \<noteq> dquote \<Longrightarrow>
     parse_line True cur (double_quotes s @ dquote # rest) = parse_line False (cur @ s) rest"
proof (induction s arbitrary: cur)
  case Nil
  then show ?case
    by (simp add: double_quotes_def parse_line_close_quote del: parse_line.simps)
next
  case (Cons c s)
  show ?case
  proof (cases "c = dquote")
    case True
    have "double_quotes (c # s) = dquote # dquote # double_quotes s"
      by (simp add: double_quotes_def True)
    then show ?thesis
      using Cons.IH [OF Cons.prems, of "cur @ [dquote]"] True
      by (simp add: parse_line_double_quote del: parse_line.simps)
  next
    case False
    have "double_quotes (c # s) = c # double_quotes s"
      by (simp add: double_quotes_def False)
    then show ?thesis
      using Cons.IH [OF Cons.prems, of "cur @ [c]"] False
      by (simp add: parse_line_plain_char del: parse_line.simps)
  qed
qed

lemma parse_cell:
  "rest = [] \<or> hd rest \<noteq> dquote \<Longrightarrow>
     parse_line False cur (csv_cell v @ rest) = parse_line False (cur @ cell_text v) rest"
proof (cases v)
  case None
  then show ?thesis by (simp add: csv_cell_def cell_text_def)
next
  case (Some s)
  assume r: "rest = [] \<or> hd rest \<noteq> dquote"
  show ?thesis
  proof (cases "CHR '','' \<in> set s \<or> dquote \<in> set s \<or> newline \<in> set s")
    case True
    then have "csv_cell v @ rest = dquote # double_quotes s @ dquote # rest"
      by (simp add: csv_cell_def Some)
    then show ?thesis
      using parse_quoted [OF r, of cur s]
      by (simp add: parse_line_open_quote cell_text_def Some del: parse_line.simps)
  next
    case False
    then have "csv_cell v = s" by (simp add: csv_cell_def Some)
    then show ?thesis
      using False parse_plain [of s cur rest] by (simp add: cell_text_def Some)
  qed
qed

lemma comma_not_dquote: "CHR '','' \<noteq> dquote"
  by (simp add: dquote_def)

lemma parse_row:
  "cells \<noteq> [] \<Longrightarrow>
     parse_line False [] (join '','' (map csv_cell cells)) = map cell_text cells"
proof (induction cells rule: induct_list012)
  case 1
  then show ?case by simp
next
  case (2 x)
  show ?case
    using parse_cell [of "[]" "[]" x] by simp
next
  case (3 x y zs)
  have "parse_line False [] (csv_cell x @ CHR '','' # join '','' (map csv_cell (y # zs)))
          = parse_line False (cell_text x) (CHR '','' # join '','' (map csv_cell (y # zs)))"
    using parse_cell [of "CHR '','' # join '','' (map csv_cell (y # zs))" "[]" x]
      comma_not_dquote by simp
  then show ?case
    using "3.IH"(2) by (simp add: parse_line_comma del: parse_line.simps)
qed

lemma split_lines_newline: "split_lines (newline # cs) = [] # split_lines cs"
  by (cases cs) auto

lemma split_lines_char:
  "c \<noteq> newline \<Longrightarrow> c \<noteq> carriage_return \<or> cs = [] \<or> hd cs \<noteq> newline \<Longrightarrow>
     split_lines (c # cs) = cons_first c (split_lines cs)"
  by (cases cs) auto

lemma split_lines_plain: "newline \<notin> set x \<Longrightarrow> split_lines x = [x]"
proof (induction x)
  case Nil
  then show ?case by simp
next
  case (Cons c x)
  have "split_lines (c # x) = cons_first c (split_lines x)"
    using Cons.prems by (intro split_lines_char) (cases x; auto)+
  then show ?case using Cons by simp
qed

lemma split_lines_row:
  assumes "newline \<notin> set x" and "x = [] \<or> last x \<noteq> carriage_return"
  shows "split_lines (x @ newline # rest) = x # split_lines rest"
  using assms
proof (induction x)
  case Nil
  then show ?case by (simp add: split_lines_newline del: split_lines.simps)
next
  case (Cons c x)
  have c: "c \<noteq> newline" using Cons.prems(1) by auto
  have "c \<noteq> carriage_return \<or> x @ newline # rest = [] \<or> hd (x @ newline # rest) \<noteq> newline"
    using Cons.prems by (cases x) auto
  then have "split_lines (c # x @ newline # rest) = cons_first c (split_lines (x @ newline # rest))"
    by (rule split_lines_char [OF c])
  moreover have "split_lines (x @ newline # rest) = x # split_lines rest"
    using Cons.prems by (intro Cons.IH) (auto split: if_splits)
  ultimately show ?case by simp
qed

lemma split_lines_join:
  assumes "rows \<noteq> []"
    and "\<forall>r \<in> set rows. newline \<notin> set r \<and> (r = [] \<or> last r \<noteq> carriage_return)"
  shows "split_lines (join [newline] rows) = rows"
  using assms
proof (induction rows rule: induct_list012)
  case 1
  then show ?case by simp
next
  case (2 x)
  then show ?case by (simp add: split_lines_plain)
next
  case (3 x y zs)
  have "split_lines (x @ newline # join [newline] (y # zs)) = x # split_lines (join [newline] (y # zs))"
    using "3.prems"(2) by (intro split_lines_row) auto
  moreover have "split_lines (join [newline] (y # zs)) = y # zs"
    using "3.prems"(2) by (intro "3.IH"(2)) auto
  ultimately show ?case by simp
qed

lemma of_char_digit_char: "0 \<le> k \<Longrightarrow> k < 10 \<Longrightarrow> of_char (digit_char k) = 48 + nat k"
  by (simp add: digit_char_def)

lemma digits_of_chars:
  "0 \<le> n \<Longrightarrow> c \<in> set (digits_of n) \<Longrightarrow> is_digit c"
proof (induction n rule: digits_of.induct)
  case (1 n)
  show ?case
  proof (cases "n < 10")
    case True
    with "1.prems" have "c = digit_char n" by (subst (asm) digits_of.simps) simp
    then show ?thesis
      using True "1.prems"(1) by (simp add: is_digit_def of_char_digit_char)
  next
    case False
    with "1.prems" have "c \<in> set (digits_of (n div 10)) \<or> c = digit_char (n mod 10)"
      by (subst (asm) digits_of.simps) auto
    then show ?thesis
    proof
      assume "c \<in> set (digits_of (n div 10))"
      then show ?thesis using "1.IH" [OF False] "1.prems"(1) False by simp
    next
      assume "c = digit_char (n mod 10)"
      then show ?thesis by (simp add: is_digit_def of_char_digit_char)
    qed
  qed
qed

lemma digits_of_nonempty: "digits_of n \<noteq> []"
  by (subst digits_of.simps) simp

lemma is_digit_plain: "is_digit c \<Longrightarrow> plain_char c"
  by (auto simp: is_digit_def plain_char_def dquote_def newline_def carriage_return_def)

lemma string_of_int_plain: "c \<in> set (string_of_int n) \<Longrightarrow> plain_char c"
proof (cases "n < 0")
  case True
  assume "c \<in> set (string_of_int n)"
  with True have "c = CHR ''-'' \<or> c \<in> set (digits_of (- n))" by (simp add: string_of_int_def)
  then show ?thesis
    using digits_of_chars [of "- n" c] True is_digit_plain
    by (auto simp: plain_char_def dquote_def newline_def carriage_return_def)
next
  case False
  assume "c \<in> set (string_of_int n)"
  with False show ?thesis
    using digits_of_chars [of n c] is_digit_plain by (simp add: string_of_int_def)
qed

lemma string_of_int_nonempty: "string_of_int n \<noteq> []"
  by (simp add: string_of_int_def digits_of_nonempty)

lemma exportToCSV_rows: "exportToCSV tasks = join [newline] (join '','' csv_headers # map csv_row tasks)"
  unfolding exportToCSV_def csv_row_def Let_def by simp

lemma double_quotes_set: "set (double_quotes s) = set s"
  by (induction s) (auto simp: double_quotes_def)

lemma csv_cell_set: "set (csv_cell v) \<subseteq> set (cell_text v) \<union> {dquote}"
  by (cases v) (auto simp: csv_cell_def cell_text_def double_quotes_set)

lemma csv_cell_plain:
  "\<forall>c \<in> set s. plain_char c \<Longrightarrow> csv_cell (Some s) = s"
  by (auto simp: csv_cell_def plain_char_def)

lemma enum_values_plain:
  "\<forall>c \<in> set (Urgency_value u). plain_char c"
  "\<forall>c \<in> set (Importance_value i). plain_char c"
  "\<forall>c \<in> set (TaskStatus_value s). plain_char c"
  "\<forall>c \<in> set (Frequency_value f). plain_char c"
  by (cases u; cases i; cases s; cases f;
      simp add: plain_char_def dquote_def newline_def carriage_return_def)+

lemma newline_not_dquote: "newline \<noteq> dquote" "newline \<noteq> CHR '',''"
  by (simp_all add: newline_def dquote_def)

lemma cell_no_newline: "newline \<notin> set (cell_text v) \<Longrightarrow> newline \<notin> set (csv_cell v)"
  using csv_cell_set [of v] newline_not_dquote by auto

lemma plain_no_newline: "\<forall>c \<in> set s. plain_char c \<Longrightarrow> newline \<notin> set s"
  by (auto simp: plain_char_def)

lemma enum_no_newline:
  "newline \<notin> set (Urgency_value u)"
  "newline \<notin> set (Importance_value i)"
  "newline \<notin> set (TaskStatus_value st)"
  "newline \<notin> set (Frequency_value f)"
  using enum_values_plain(1) [of u] enum_values_plain(2) [of i] enum_values_plain(3) [of st]
    enum_values_plain(4) [of f]
  by (simp_all add: plain_no_newline)

lemma int_no_newline: "newline \<notin> set (string_of_int n)"
  using string_of_int_plain [of newline n] by (auto simp: plain_char_def)

lemma cell_text_Some: "cell_text (Some s) = s"
  by (simp add: cell_text_def)

lemma cell_text_None: "cell_text None = []"
  by (simp add: cell_text_def)

lemma opt_int_no_newline: "newline \<notin> set (cell_text (map_option string_of_int v))"
  by (cases v) (simp_all add: cell_text_def int_no_newline)

lemma column_no_newline:
  assumes "no_line_break task"
  shows "newline \<notin> set (cell_text (task_column task header))"
  using assms
  by (simp add: task_column_def cell_text_Some cell_text_None no_line_break_def
                enum_no_newline int_no_newline opt_int_no_newline)

lemma join_set: "set (join sep xs) \<subseteq> set sep \<union> \<Union> (set ` set xs)"
  by (induction xs rule: induct_list012) auto

lemma csv_row_no_newline:
  assumes "no_line_break task"
  shows "newline \<notin> set (csv_row task)"
proof
  assume "newline \<in> set (csv_row task)"
  then have "newline \<in> set '','' \<union> \<Union> (set ` set (map (\<lambda>header. csv_cell (task_column task header)) csv_headers))"
    using join_set [of "'',''"] unfolding csv_row_def by blast
  then obtain header where "newline \<in> set (csv_cell (task_column task header))"
    using newline_not_dquote by auto
  then show False
    using cell_no_newline [OF column_no_newline [OF assms]] by blast
qed

lemma last_cell:
  "csv_cell (task_column task ''recurrenceEndedAt'') = []
   \<or> last (csv_cell (task_column task ''recurrenceEndedAt'')) \<noteq> carriage_return"
proof (cases "recurrenceEndedAt task")
  case None
  then show ?thesis by (simp add: task_column_def csv_cell_def)
next
  case (Some n)
  have p: "\<forall>c \<in> set (string_of_int n). plain_char c" using string_of_int_plain by blast
  then have "plain_char (last (string_of_int n))"
    using string_of_int_nonempty [of n] last_in_set by blast
  then show ?thesis
    using Some csv_cell_plain [OF p] by (simp add: task_column_def plain_char_def)
qed

lemma join_snoc: "xs \<noteq> [] \<Longrightarrow> join sep (xs @ [x]) = join sep xs @ sep @ x"
  by (induction xs rule: induct_list012) auto

lemma csv_headers_snoc:
  "csv_headers = butlast csv_headers @ [''recurrenceEndedAt''] \<and> butlast csv_headers \<noteq> []"
  by (simp add: csv_headers_def)

lemma csv_row_last: "csv_row task \<noteq> [] \<and> last (csv_row task) \<noteq> carriage_return"
proof -
  let ?f = "\<lambda>header. csv_cell (task_column task header)"
  have "map ?f csv_headers = map ?f (butlast csv_headers) @ [?f ''recurrenceEndedAt'']"
    by (subst csv_headers_snoc [THEN conjunct1]) simp
  moreover have "map ?f (butlast csv_headers) \<noteq> []"
    using csv_headers_snoc by simp
  then have "join '','' (map ?f (butlast csv_headers) @ [?f ''recurrenceEndedAt''])
      = join '','' (map ?f (butlast csv_headers)) @ '','' @ ?f ''recurrenceEndedAt''"
    by (rule join_snoc)
  ultimately have "csv_row task
      = join '','' (map ?f (butlast csv_headers)) @ '','' @ ?f ''recurrenceEndedAt''"
    unfolding csv_row_def by (simp only:)
  then show ?thesis
    using last_cell [of task] by (auto simp: carriage_return_def)
qed

lemma csv_row_has_comma: "CHR '','' \<in> set (csv_row task)"
proof -
  let ?f = "\<lambda>header. csv_cell (task_column task header)"
  have "map ?f csv_headers = map ?f (butlast csv_headers) @ [?f ''recurrenceEndedAt'']"
    by (subst csv_headers_snoc [THEN conjunct1]) simp
  moreover have "map ?f (butlast csv_headers) \<noteq> []"
    using csv_headers_snoc by simp
  then have "join '','' (map ?f (butlast csv_headers) @ [?f ''recurrenceEndedAt''])
      = join '','' (map ?f (butlast csv_headers)) @ '','' @ ?f ''recurrenceEndedAt''"
    by (rule join_snoc)
  ultimately have "csv_row task
      = join '','' (map ?f (butlast csv_headers)) @ '','' @ ?f ''recurrenceEndedAt''"
    unfolding csv_row_def by (simp only:)
  then show ?thesis by simp
qed

lemma trim_nonempty:
  assumes "c \<in> set x" and "\<not> is_space c"
  shows "trim x \<noteq> []"
proof -
  let ?y = "dropWhile is_space x"
  have y: "?y \<noteq> []" using assms by (auto simp: dropWhile_eq_Nil_conv)
  then have "\<not> is_space (hd ?y)" by (rule hd_dropWhile)
  moreover have "hd ?y \<in> set (rev ?y)" using y by simp
  ultimately have "dropWhile is_space (rev ?y) \<noteq> []"
    by (auto simp: dropWhile_eq_Nil_conv simp del: set_rev)
  then show ?thesis by (simp add: trim_def)
qed

lemma csv_row_not_blank: "trim (csv_row task) \<noteq> []"
  using csv_row_has_comma by (rule trim_nonempty) (simp add: is_space_def)

lemma parse_csv_row:
  "parse_line False [] (csv_row task) = map (\<lambda>header. cell_text (task_column task header)) csv_headers"
proof -
  have "map (\<lambda>header. csv_cell (task_column task header)) csv_headers
          = map csv_cell (map (task_column task) csv_headers)"
    by simp
  moreover have "map (task_column task) csv_headers \<noteq> []" by (simp add: csv_headers_def)
  ultimately show ?thesis
    unfolding csv_row_def using parse_row [of "map (task_column task) csv_headers"]
    by (simp add: comp_def)
qed

lemma header_line:
  "newline \<notin> set (join '','' csv_headers)"
  "last (join '','' csv_headers) \<noteq> carriage_return"
  "map trim (split_on CHR '','' (join '','' csv_headers)) = csv_headers"
  by code_simp+

lemma row_values:
  "parse_line False [] (csv_row task) =
     [task_id task, title task, description task, Urgency_value (urgency task),
      Importance_value (importance task), TaskStatus_value (status task), date task,
      Frequency_value (frequency task), string_of_int (createdAt task),
      string_of_int (updatedAt task), cell_text (map_option string_of_int (completedAt task)),
      cell_text (map_option string_of_int (recurrenceEndedAt task))]"
  unfolding parse_csv_row
  by (simp add: csv_headers_def task_column_def cell_text_Some)

lemma parse_record_row:
  "parse_record csv_headers (csv_row task) =
     [(''history'', JEmptyArray), (''completionHistory'', JEmptyObject),
      (''id'', JString (task_id task)), (''title'', JString (title task)),
      (''description'', JString (description task)),
      (''urgency'', JString (Urgency_value (urgency task))),
      (''importance'', JString (Importance_value (importance task))),
      (''status'', JString (TaskStatus_value (status task))),
      (''date'', JString (date task)),
      (''frequency'', JString (Frequency_value (frequency task))),
      (''createdAt'', timestamp_cell (string_of_int (createdAt task))),
      (''updatedAt'', timestamp_cell (string_of_int (updatedAt task))),
      (''completedAt'',
         timestamp_cell (cell_text (map_option string_of_int (completedAt task)))),
      (''recurrenceEndedAt'',
         timestamp_cell (cell_text (map_option string_of_int (recurrenceEndedAt task))))]"
  unfolding parse_record_def row_values Let_def
  by (simp add: csv_headers_def timestamp_headers_def timestamp_cell_def enumerate_eq_zip
                upt_rec)

lemma visible_after_merge:
  "visible_fields_of_object (merge_candidate n a b (parse_record csv_headers (csv_row task)))
     = visible_fields task"
  unfolding parse_record_row
  by (simp add: merge_candidate_def visible_fields_of_object_def visible_fields_def obj_get_def)

lemma merged_visible:
  "map visible_fields_of_object
       (map (\<lambda>(i, t). merge_candidate (gen i) (fst (clock i)) (snd (clock i)) t)
            (enumerate k (map (\<lambda>task. parse_record csv_headers (csv_row task)) tasks)))
     = map visible_fields tasks"
  by (induction tasks arbitrary: k) (simp_all add: visible_after_merge)

lemma parseCSV_exportToCSV:
  assumes "\<forall>task \<in> set tasks. no_line_break task"
  shows "parseCSV (exportToCSV tasks) = map (\<lambda>task. parse_record csv_headers (csv_row task)) tasks"
proof (cases "tasks = []")
  case True
  have "split_lines (join '','' csv_headers) = [join '','' csv_headers]"
    by (rule split_lines_plain) (rule header_line(1))
  then show ?thesis
    by (simp add: True parseCSV_def exportToCSV_rows Let_def)
next
  case False
  let ?rows = "join '','' csv_headers # map csv_row tasks"
  have "\<forall>r \<in> set ?rows. newline \<notin> set r \<and> (r = [] \<or> last r \<noteq> carriage_return)"
    using assms header_line(1,2) csv_row_no_newline csv_row_last by auto
  then have lines: "split_lines (exportToCSV tasks) = ?rows"
    unfolding exportToCSV_rows by (intro split_lines_join) simp_all
  have keep: "filter (\<lambda>line. trim line \<noteq> []) (map csv_row tasks) = map csv_row tasks"
    by (simp add: csv_row_not_blank)
  show ?thesis
    using False by (simp add: parseCSV_def lines Let_def header_line(3) keep comp_def)
qed


section \<open>Facts about well-formed stored dates\<close>

text \<open>
  \<^verbatim>\<open>Number\<close> reads back what the decimal output wrote, so \<^verbatim>\<open>parseLocalTaskDate\<close> maps
  the string of a valid date to the local midnight of that day, in every time zone, and
  the local fields of that instant are the year, the month and the day of the string.
\<close>

lemma of_char_digit_char_int:
  assumes "0 \<le> k" and "k < 10"
  shows "(of_char (digit_char k) :: int) = 48 + k"
proof -
  have "(of_char (digit_char k) :: nat) = 48 + nat k"
    using assms by (simp add: digit_char_def)
  then have "int (of_char (digit_char k)) = 48 + k" using assms by simp
  then show ?thesis by (simp add: of_nat_of_char)
qed

lemma digit_char_is_digit: "0 \<le> k \<Longrightarrow> k < 10 \<Longrightarrow> is_digit (digit_char k)"
  by (simp add: is_digit_def digit_char_def)

lemma digits_value_snoc:
  "digits_value (s @ [c]) = 10 * digits_value s + (of_char c - 48)"
  by (simp add: digits_value_def)

lemma digits_of_all_digits: "0 \<le> n \<Longrightarrow> list_all is_digit (digits_of n)"
proof (induction n rule: digits_of.induct)
  case (1 n)
  show ?case
  proof (cases "n < 10")
    case True
    then show ?thesis
      using "1.prems" by (subst digits_of.simps) (simp add: digit_char_is_digit)
  next
    case False
    then have "list_all is_digit (digits_of (n div 10))"
      using "1.IH" "1.prems" by simp
    then show ?thesis
      using False by (subst digits_of.simps) (simp add: digit_char_is_digit)
  qed
qed

lemma digits_value_digits_of: "0 \<le> n \<Longrightarrow> digits_value (digits_of n) = n"
proof (induction n rule: digits_of.induct)
  case (1 n)
  show ?case
  proof (cases "n < 10")
    case True
    then show ?thesis
      using "1.prems"
      by (subst digits_of.simps) (simp add: digits_value_def of_char_digit_char_int)
  next
    case False
    then have "digits_value (digits_of (n div 10)) = n div 10"
      using "1.IH" "1.prems" by simp
    then show ?thesis
      using False
      by (subst digits_of.simps) (simp add: digits_value_snoc of_char_digit_char_int)
  qed
qed

lemma zero_is_digit: "is_digit CHR ''0''"
  by (simp add: is_digit_def)

lemma digits_value_zeros: "digits_value (replicate k CHR ''0'' @ s) = digits_value s"
proof -
  have "foldl (\<lambda>acc c. 10 * acc + (of_char c - 48)) (0::int) (replicate k CHR ''0'') = 0"
    by (induction k) simp_all
  then show ?thesis by (simp add: digits_value_def)
qed

lemma pad_zeros_digits:
  assumes "0 \<le> n"
  shows "list_all is_digit (pad_zeros n k) \<and> pad_zeros n k \<noteq> []
         \<and> digits_value (pad_zeros n k) = n"
  using assms digits_of_all_digits [of n] digits_of_nonempty [of n] digits_value_digits_of [of n]
  by (auto simp: pad_zeros_def Let_def digits_value_zeros zero_is_digit list_all_iff)

lemma digit_not_space: "is_digit c \<Longrightarrow> \<not> is_space c"
  by (auto simp: is_digit_def is_space_def)

lemma digit_not_sign: "is_digit c \<Longrightarrow> c \<noteq> CHR ''-'' \<and> c \<noteq> CHR ''+''"
  by (auto simp: is_digit_def)

lemma dropWhile_hd: "xs \<noteq> [] \<Longrightarrow> \<not> P (hd xs) \<Longrightarrow> dropWhile P xs = xs"
  by (cases xs) auto

lemma trim_digits: "list_all is_digit s \<Longrightarrow> trim s = s"
proof (cases "s = []")
  case True
  then show ?thesis by (simp add: trim_def)
next
  case False
  assume a: "list_all is_digit s"
  have "is_digit (hd s)" "is_digit (last s)"
    using a False by (auto simp: list_all_iff)
  then have h: "\<not> is_space (hd s)" and l: "\<not> is_space (hd (rev s))"
    using digit_not_space by (simp_all add: hd_rev)
  have "dropWhile is_space s = s" using False h by (rule dropWhile_hd)
  moreover have "dropWhile is_space (rev s) = rev s"
    using False l by (intro dropWhile_hd) simp_all
  ultimately show ?thesis by (simp add: trim_def)
qed

lemma Number_digits:
  assumes "list_all is_digit s" and "s \<noteq> []"
  shows "Number s = Some (digits_value s)"
proof -
  obtain c cs where s: "s = c # cs" using assms(2) by (cases s) auto
  have "is_digit c" using assms(1) s by simp
  then have "c \<noteq> CHR ''-''" "c \<noteq> CHR ''+''" using digit_not_sign by auto
  then show ?thesis
    using assms(1) s by (simp add: Number_def trim_digits)
qed

lemma Number_pad_zeros: "0 \<le> n \<Longrightarrow> Number (pad_zeros n k) = Some n"
  using pad_zeros_digits [of n k] Number_digits [of "pad_zeros n k"] by simp

lemma split_on_plain: "sep \<notin> set a \<Longrightarrow> split_on sep a = [a]"
  by (induction a) auto

lemma split_on_part: "sep \<notin> set a \<Longrightarrow> split_on sep (a @ sep # rest) = a # split_on sep rest"
  by (induction a) auto

lemma hyphen_not_in_digits: "list_all is_digit s \<Longrightarrow> CHR ''-'' \<notin> set s"
  using digit_not_sign by (auto simp: list_all_iff)

lemma split_date_string:
  assumes "0 \<le> y" and "0 \<le> m" and "0 \<le> d"
  shows "split_on CHR ''-'' (date_string y m d) = [pad_zeros y 4, pad_zeros m 2, pad_zeros d 2]"
proof -
  have h: "CHR ''-'' \<notin> set (pad_zeros y 4)" "CHR ''-'' \<notin> set (pad_zeros m 2)"
    "CHR ''-'' \<notin> set (pad_zeros d 2)"
    using assms pad_zeros_digits hyphen_not_in_digits by blast+
  show ?thesis
    unfolding date_string_def using h
    by (simp add: split_on_part split_on_plain del: split_on.simps)
qed

lemma parse_date_string:
  assumes "100 \<le> y" and "0 \<le> m" and "0 \<le> d"
  shows "parseLocalTaskDate tza (date_string y m d) = Some (local_midnight tza y m d)"
proof -
  have y: "0 \<le> y" using assms(1) by simp
  have n: "Number (pad_zeros y 4) = Some y" "Number (pad_zeros m 2) = Some m"
    "Number (pad_zeros d 2) = Some d"
    using y assms(2,3) by (simp_all add: Number_pad_zeros)
  have "\<not> y \<le> 99" using assms(1) by simp
  then show ?thesis
    unfolding parseLocalTaskDate_def split_date_string [OF y assms(2,3)] Let_def
    by (simp add: part_number_def n new_Date_ymd_def local_midnight_def midnight_of_day)
qed


lemma parse_valid_date_string:
  assumes "valid_date y m d"
  shows "parseLocalTaskDate tza (date_string y m d) = Some (local_midnight tza y m d)"
  using assms by (intro parse_date_string) (simp_all add: valid_date_def)




section \<open>Evaluations of the example inputs\<close>

lemma parse_jan01: "parseLocalTaskDate 0 ''2024-01-01'' = Some 1704067200000"
  by code_simp

lemma midnights:
  "setHours0 0 1705752000000 = 1705708800000"
  "setHours0 0 1704931200000 = 1704931200000"
  "setHours0 0 1704888000000 = 1704844800000"
  "setHours0 0 1704844800000 = 1704844800000"
  by (simp_all add: setHours0_def UTC_def LocalTime_def MakeDate_def Day_def msPerDay_def)

lemma key_jan10: "getPeriodKey 0 1704844800000 WEEKLY = ''2024-W2''"
  by code_simp

lemma key_jan17: "getPeriodKey 0 1705449600000 WEEKLY = ''2024-W3''"
  by code_simp

lemma parse_jan31: "parseLocalTaskDate 0 ''2024-01-31'' = Some 1706659200000"
  by code_simp

lemma parse_jan10: "parseLocalTaskDate 0 ''2024-01-10'' = Some 1704844800000"
  by code_simp

lemma example_gen_0: "example_gen 0 = ''h0''"
  by code_simp

lemma example_gen2_00: "example_gen2 0 0 = ''h0x0''"
  by code_simp

lemma capitalize_title: "capitalize ''title'' = ''Title''"
  by code_simp

lemma parse_leap_day: "parseLocalTaskDate 0 ''2024-02-29'' = Some 1709164800000"
  by code_simp

lemma parse_mar15: "parseLocalTaskDate 0 ''2023-03-15'' = Some 1678838400000"
  by code_simp

lemma fields_leap_day: "getMonth 0 1709164800000 = 1" "getDate 0 1709164800000 = 29"
  by code_simp+

lemma fields_mar15: "getMonth 0 1678838400000 = 2"
  by code_simp

lemma year_of_jul01: "getFullYear 0 1751328000000 = 2025"
  by code_simp

lemma interval_2025:
  "view_interval 0 YEAR 1751328000000 = (1735689600000, 1767225599999)"
  by (simp add: year_interval year_of_jul01 DayFromYear_def UTC_def MakeDate_def msPerDay_def)


lemma dates_jan10:
  "date_string 2024 1 10 = ''2024-01-10''" "valid_date 2024 1 10"
  "local_midnight 19800000 2024 1 10 = 1704825000000"
  "setHours0 19800000 1704240000000 = 1704220200000"
  by code_simp+


section \<open>The properties of the specification\<close>

text \<open>
  C1. On Sunday 2024-01-07 \<^verbatim>\<open>getPeriodKey\<close> gives \<^verbatim>\<open>2024-W2\<close> for the frequency
  Weekly, while the ISO-8601 week of that day is week 1, so that the key of the
  specification is \<^verbatim>\<open>2024-W1\<close>: \<^verbatim>\<open>getWeek\<close> of date-fns counts weeks that start
  on Sunday, week 1 being the week of 1 January. On 2024-01-10 both give
  \<^verbatim>\<open>2024-W2\<close>.
\<close>

theorem weekly_key_is_not_iso_week:
  "parseLocalTaskDate 0 ''2024-01-07'' = Some 1704585600000
   \<and> getDay 0 1704585600000 = 0
   \<and> getPeriodKey 0 1704585600000 WEEKLY = ''2024-W2''
   \<and> isoWeekNumber 0 1704585600000 = 1
   \<and> periodKey_Weekly 0 1704585600000 = ''2024-W1''
   \<and> getPeriodKey 0 1704844800000 WEEKLY = ''2024-W2''
   \<and> periodKey_Weekly 0 1704844800000 = ''2024-W2''"
  by code_simp

text \<open>
  C2. Ending the series of a recurring task (the editor's copy of a task of the
  collection, found there by its \<^verbatim>\<open>id\<close>) sets
  \<^verbatim>\<open>recurrenceEndedAt\<close> to the instant \<open>now\<close> of the click, the status to
  \<^verbatim>\<open>DONE\<close>, and the ledger entry under the period key of the contextual date \<open>D\<close>
  to \<^verbatim>\<open>DONE\<close>. The task is then inactive on the day after \<open>D\<close> provided \<open>now\<close> is
  not zero and its day is not after the day of \<open>D\<close>: the cut-off is the day of the
  click, not the contextual date.
\<close>

theorem endSeries_effect:
  assumes "i < length tasks" and "task_id (tasks ! i) = task_id task"
    and "task_id task \<noteq> []" and "frequency task \<noteq> NONE"
  shows "recurrenceEndedAt (endSeries tza gen now ts cur tasks task D ! i) = Some now
       \<and> status (endSeries tza gen now ts cur tasks task D ! i) = DONE
       \<and> ledger_entry (endSeries tza gen now ts cur tasks task D ! i)
           (getPeriodKey tza D (frequency task)) = Some DONE
       \<and> (now \<noteq> 0 \<and> setHours0 tza now \<le> setHours0 tza D \<longrightarrow>
            \<not> isTaskActiveOnDate tza (endSeries tza gen now ts cur tasks task D ! i)
                 (D + msPerDay))"
proof -
  let ?t' = "endSeries tza gen now ts cur tasks task D ! i"
  have t': "?t' = update_task (gen i) ts (tasks ! i)
                    (handleCompleteSeries tza (form_of_task tza task D) D now)"
    using assms(1,2,3) by (simp add: endSeries_def handleSaveTask_nth)
  have r: "recurrenceEndedAt ?t' = Some now" and s: "status ?t' = DONE"
    and l: "ledger_entry ?t' (getPeriodKey tza D (frequency task)) = Some DONE"
    using assms(4) by (simp_all add: t' update_task_def spread_form_complete ledger_entry_def)
  have "\<not> isTaskActiveOnDate tza ?t' (D + msPerDay)"
    if "now \<noteq> 0" and "setHours0 tza now \<le> setHours0 tza D"
  proof -
    have "0 < msPerDay" by (simp add: msPerDay_def)
    then have "setHours0 tza now < setHours0 tza (D + msPerDay)"
      using that(2) by (simp add: setHours0_add_day)
    then show ?thesis
      using that(1) r by (simp add: isTaskActiveOnDate_def)
  qed
  then show ?thesis using r s l by blast
qed

theorem endSeries_effect_witness:
  "0 < length [example_task] \<and> task_id example_task \<noteq> [] \<and> frequency example_task \<noteq> NONE
   \<and> (1704888000000::int) \<noteq> 0 \<and> setHours0 0 1704888000000 \<le> setHours0 0 1704844800000
   \<and> recurrenceEndedAt
         (endSeries 0 example_gen2 1704888000000 1704888000001 1704844800000 [example_task]
            example_task 1704844800000 ! 0) = Some 1704888000000
   \<and> status
         (endSeries 0 example_gen2 1704888000000 1704888000001 1704844800000 [example_task]
            example_task 1704844800000 ! 0) = DONE
   \<and> \<not> isTaskActiveOnDate 0
         (endSeries 0 example_gen2 1704888000000 1704888000001 1704844800000 [example_task]
            example_task 1704844800000 ! 0) (1704844800000 + msPerDay)"
proof -
  have l: "0 < length [example_task]" by simp
  have n: "task_id ([example_task] ! 0) = task_id example_task" by simp
  have i: "task_id example_task \<noteq> []" by (simp add: example_task_def)
  have f: "frequency example_task \<noteq> NONE" by (simp add: example_task_def)
  have m: "setHours0 0 1704888000000 \<le> setHours0 0 1704844800000"
    by (simp add: midnights)
  show ?thesis
    using endSeries_effect [OF l n i f, of 0 example_gen2 1704888000000 1704888000001
            1704844800000 1704844800000] l i f m
    by simp
qed

text \<open>
  As the specification states it, C2 fails when the contextual date lies before the day
  of the click: a daily task anchored on 2024-01-01 whose series is ended on 2024-01-20 from
  the contextual date 2024-01-10 is still active on 2024-01-11.
\<close>

theorem endSeries_past_date_counterexample:
  "frequency example_daily \<noteq> NONE
   \<and> recurrenceEndedAt
         (endSeries 0 example_gen2 1705752000000 1705752000001 1704844800000 [example_daily]
            example_daily 1704844800000 ! 0) = Some 1705752000000
   \<and> isTaskActiveOnDate 0
         (endSeries 0 example_gen2 1705752000000 1705752000001 1704844800000 [example_daily]
            example_daily 1704844800000 ! 0) (1704844800000 + msPerDay)"
proof -
  let ?t' = "endSeries 0 example_gen2 1705752000000 1705752000001 1704844800000 [example_daily]
            example_daily 1704844800000 ! 0"
  have i: "task_id example_daily \<noteq> []" by (simp add: example_daily_def example_task_def)
  have f: "frequency example_daily = DAILY" by (simp add: example_daily_def)
  have t': "?t' = update_task (example_gen2 0) 1705752000001 example_daily
                    (handleCompleteSeries 0 (form_of_task 0 example_daily 1704844800000)
                       1704844800000 1705752000000)"
    using i by (simp add: endSeries_def handleSaveTask_nth)
  have r: "recurrenceEndedAt ?t' = Some 1705752000000"
    and d: "date ?t' = ''2024-01-01''" and fr: "frequency ?t' = DAILY"
    using f by (simp_all add: t' update_task_def spread_form_complete)
       (simp_all add: example_daily_def)
  have "isTaskActiveOnDate 0 ?t' (1704844800000 + msPerDay)"
    unfolding isTaskActiveOnDate_def r d fr parse_jan01
    by (simp add: msPerDay_def midnights js_lt_def)
  then show ?thesis using f r by simp
qed

text \<open>
  C3. A drag of a task whose series is ended is not rejected. \<^verbatim>\<open>handleDragEnd\<close> never
  reads \<^verbatim>\<open>recurrenceEndedAt\<close>, and the card of an ended series can be dragged like any
  other, while the editor disables every input of such a task. The ended series
  \<open>example_ended\<close>, of low urgency and low importance, dropped on the quadrant \<^verbatim>\<open>q1\<close>
  comes out with high urgency and high importance, one more history entry and a new
  \<^verbatim>\<open>updatedAt\<close>: the collection is not the one before the drag.
\<close>

theorem ended_series_drag_changes_task:
  "series_ended example_ended
   \<and> urgency example_ended = Urgency_LOW \<and> importance example_ended = Importance_LOW
   \<and> handleDragEnd example_gen example_clock [example_ended] ''k3x9a1b'' (Some ''q1'') ! 0
       = example_ended\<lparr>urgency := Urgency_HIGH, importance := Importance_HIGH,
                       history := [\<lparr>entry_id = ''h0'', timestamp = 1704844800000,
                                    field = ''Matrix Position'', oldValue = ''Low / Low'',
                                    newValue = ''High / High'', user = ''User''\<rparr>],
                       updatedAt := 1704844800001\<rparr>
   \<and> handleDragEnd example_gen example_clock [example_ended] ''k3x9a1b'' (Some ''q1'')
       \<noteq> [example_ended]"
proof -
  have e: "series_ended example_ended"
    by (simp add: series_ended_def example_ended_def)
  have v: "urgency example_ended = Urgency_LOW" "importance example_ended = Importance_LOW"
    by (simp_all add: example_ended_def example_task_def)
  have t: "handleDragEnd example_gen example_clock [example_ended] ''k3x9a1b'' (Some ''q1'') ! 0
       = example_ended\<lparr>urgency := Urgency_HIGH, importance := Importance_HIGH,
                       history := [\<lparr>entry_id = ''h0'', timestamp = 1704844800000,
                                    field = ''Matrix Position'', oldValue = ''Low / Low'',
                                    newValue = ''High / High'', user = ''User''\<rparr>],
                       updatedAt := 1704844800001\<rparr>"
    by (simp add: handleDragEnd_nth relocate_task_def Let_def example_ended_def
                  example_task_def example_gen_0 example_clock_def)
  have "urgency (handleDragEnd example_gen example_clock [example_ended] ''k3x9a1b''
                   (Some ''q1'') ! 0) \<noteq> urgency example_ended"
    unfolding t using v by simp
  then have n: "handleDragEnd example_gen example_clock [example_ended] ''k3x9a1b''
                  (Some ''q1'') \<noteq> [example_ended]"
    by auto
  show ?thesis using e v t n by simp
qed

text \<open>
  C4. A task whose description holds a line break does not survive the round trip:
  \<^verbatim>\<open>exportToCSV\<close> quotes the field, but \<^verbatim>\<open>parseCSV\<close> splits the text into lines
  before it looks at the quotes, and reads two records, none of which has the task's
  description, urgency, importance, status, date or frequency.
\<close>

theorem csv_round_trip_loses_newline:
  "map visible_fields_of_object
       (csv_round_trip example_gen example_clock [example_two_lines])
     = [[JString ''Water the plants'', JString ''soil'', JUndefined, JUndefined, JUndefined,
         JUndefined, JUndefined],
        [JUndefined, JUndefined, JUndefined, JUndefined, JUndefined, JUndefined, JUndefined]]
   \<and> map visible_fields_of_object
       (csv_round_trip example_gen example_clock [example_two_lines])
     \<noteq> map visible_fields [example_two_lines]"
  by code_simp

text \<open>
  Line feeds are the only obstacle: for tasks whose \<^verbatim>\<open>id\<close>, title, description and
  date hold no line feed (commas and double quotes are allowed), export, import and merge
  give back the title, description, urgency, importance, status, date and frequency of
  every task, record for record.
\<close>

theorem csv_round_trip_without_line_breaks:
  assumes "\<forall>task \<in> set tasks. no_line_break task"
  shows "map visible_fields_of_object (csv_round_trip gen clock tasks) = map visible_fields tasks"
  unfolding csv_round_trip_def tasksWithIds_def parseCSV_exportToCSV [OF assms]
  by (rule merged_visible)

theorem csv_round_trip_without_line_breaks_witness:
  "no_line_break example_quoted \<and> no_line_break example_task
   \<and> title example_quoted = ''a, '' @ [dquote] @ ''b'' @ [dquote]
   \<and> map visible_fields_of_object
         (csv_round_trip example_gen example_clock [example_quoted, example_task])
       = map visible_fields [example_quoted, example_task]"
proof -
  have n: "no_line_break example_quoted" "no_line_break example_task"
    by code_simp+
  then have "\<forall>task \<in> set [example_quoted, example_task]. no_line_break task"
    by simp
  from csv_round_trip_without_line_breaks [OF this, of example_gen example_clock] n
  show ?thesis by (simp add: example_quoted_def)
qed



text \<open>
  C6. \<^verbatim>\<open>getTaskStatus\<close> returns the stored status of a task without frequency,
  whatever the date; for a recurring task it returns what the ledger holds under the
  period key of the date, and \<^verbatim>\<open>TODO\<close> when the ledger holds nothing there.
\<close>

theorem getTaskStatus_by_frequency:
  "(frequency task = NONE \<longrightarrow> getTaskStatus tza task d = status task)
   \<and> (frequency task \<noteq> NONE \<longrightarrow>
        (\<forall>s. ledger_entry task (getPeriodKey tza d (frequency task)) = Some s
               \<longrightarrow> getTaskStatus tza task d = s)
        \<and> (ledger_entry task (getPeriodKey tza d (frequency task)) = None
               \<longrightarrow> getTaskStatus tza task d = TODO))"
  by (auto simp: getTaskStatus_def ledger_entry_def Let_def split: option.splits)

theorem getTaskStatus_by_frequency_witness:
  "getTaskStatus 0 (example_task\<lparr>frequency := NONE\<rparr>) 1704844800000 = IN_PROGRESS
   \<and> ledger_entry example_task (getPeriodKey 0 1704844800000 WEEKLY) = Some DONE
   \<and> getTaskStatus 0 example_task 1704844800000 = DONE
   \<and> ledger_entry example_task (getPeriodKey 0 1705449600000 WEEKLY) = None
   \<and> getTaskStatus 0 example_task 1705449600000 = TODO"
proof -
  have a: "ledger_entry example_task (getPeriodKey 0 1704844800000 WEEKLY) = Some DONE"
    by (simp add: example_task_def ledger_entry_def key_jan10)
  have b: "ledger_entry example_task (getPeriodKey 0 1705449600000 WEEKLY) = None"
    by (simp add: example_task_def ledger_entry_def key_jan17)
  have f: "frequency example_task = WEEKLY" by (simp add: example_task_def)
  show ?thesis
    using getTaskStatus_by_frequency [of "example_task\<lparr>frequency := NONE\<rparr>" 0 1704844800000]
      getTaskStatus_by_frequency [of example_task 0 1704844800000]
      getTaskStatus_by_frequency [of example_task 0 1705449600000] a b f
    by (simp add: example_task_def)
qed

text \<open>
  C7. For a Yearly task (the only recurring frequency the Year view lets through) whose
  series has not been ended and whose anchor is not a 29 February when the viewed year
  is a common year, the Year view's test \<^verbatim>\<open>taskStart <= interval.end\<close>, which is what
  the filter applies, holds exactly when the task is active on one of the days of the
  viewed year.
\<close>

theorem year_prefilter_iff_occurrence:
  assumes "frequency task = YEARLY" and "\<not> series_ended task"
    and "\<forall>a. parseLocalTaskDate tza (date task) = Some a \<longrightarrow>
           \<not> (getMonth tza a = 1 \<and> getDate tza a = 29
              \<and> DaysInYear (getFullYear tza currentDate) = 365)"
  shows "(task_in_view tza YEAR currentDate task
            \<longleftrightarrow> year_prefilter tza task (snd (view_interval tza YEAR currentDate)))
       \<and> (year_prefilter tza task (snd (view_interval tza YEAR currentDate))
            \<longleftrightarrow> occurs_in_interval tza task (fst (view_interval tza YEAR currentDate))
                  (snd (view_interval tza YEAR currentDate)))"
proof -
  have v: "task_in_view tza YEAR currentDate task
             \<longleftrightarrow> year_prefilter tza task (snd (view_interval tza YEAR currentDate))"
    using assms(1) by (simp add: task_in_view_def Let_def)
  have "occurs_in_interval tza task (fst (view_interval tza YEAR currentDate))
          (snd (view_interval tza YEAR currentDate))"
    if p: "year_prefilter tza task (snd (view_interval tza YEAR currentDate))"
  proof -
    from p obtain a where a: "task_start tza (date task) = Some a"
      by (cases "task_start tza (date task)") (simp_all add: year_prefilter_def js_le_opt_def)
    then have "\<not> (getMonth tza a = 1 \<and> getDate tza a = 29
                  \<and> DaysInYear (getFullYear tza currentDate) = 365)"
      using assms(3) by (simp add: parse_eq_task_start)
    then show ?thesis by (rule occurrence_of_prefilter [OF assms(1,2) a _ p])
  qed
  with prefilter_of_occurrence [OF assms(1,2)] v show ?thesis by blast
qed

theorem year_prefilter_iff_occurrence_witness:
  "frequency example_yearly = YEARLY \<and> \<not> series_ended example_yearly
   \<and> parseLocalTaskDate 0 (date example_yearly) = Some 1678838400000
   \<and> getMonth 0 1678838400000 = 2
   \<and> task_in_view 0 YEAR 1751328000000 example_yearly
   \<and> occurs_in_interval 0 example_yearly (fst (view_interval 0 YEAR 1751328000000))
        (snd (view_interval 0 YEAR 1751328000000))"
proof -
  have f: "frequency example_yearly = YEARLY" by (simp add: example_yearly_def)
  have e: "\<not> series_ended example_yearly"
    by (simp add: example_yearly_def example_task_def series_ended_def)
  have p: "parseLocalTaskDate 0 (date example_yearly) = Some 1678838400000"
    by (simp add: example_yearly_def parse_mar15)
  have h: "\<forall>a. parseLocalTaskDate 0 (date example_yearly) = Some a \<longrightarrow>
             \<not> (getMonth 0 a = 1 \<and> getDate 0 a = 29
                \<and> DaysInYear (getFullYear 0 1751328000000) = 365)"
    by (simp add: p fields_mar15)
  have pre: "year_prefilter 0 example_yearly (snd (view_interval 0 YEAR 1751328000000))"
    using p by (simp add: year_prefilter_def js_le_opt_def interval_2025
                          parse_eq_task_start [symmetric])
  show ?thesis
    using year_prefilter_iff_occurrence [OF f e h] f e p pre fields_mar15 by simp
qed

text \<open>
  As the specification states it, C7 fails in two ways. A Yearly task anchored on
  2024-02-29 passes the Year view's test for 2025 and is active on no day of 2025; so
  does a Yearly task anchored on 2023-03-15 whose series was ended on 2023-06-01.
\<close>

theorem year_prefilter_counterexample:
  "frequency example_leap_day = YEARLY
   \<and> task_in_view 0 YEAR 1751328000000 example_leap_day
   \<and> \<not> occurs_in_interval 0 example_leap_day (fst (view_interval 0 YEAR 1751328000000))
          (snd (view_interval 0 YEAR 1751328000000))
   \<and> frequency example_yearly_ended = YEARLY
   \<and> task_in_view 0 YEAR 1751328000000 example_yearly_ended
   \<and> \<not> occurs_in_interval 0 example_yearly_ended (fst (view_interval 0 YEAR 1751328000000))
          (snd (view_interval 0 YEAR 1751328000000))"
proof -
  let ?days = "eachDayOfInterval 0 (fst (view_interval 0 YEAR 1751328000000))
                 (snd (view_interval 0 YEAR 1751328000000))"
  have f1: "frequency example_leap_day = YEARLY" by (simp add: example_leap_day_def)
  have n1: "\<not> series_ended example_leap_day"
    by (simp add: example_leap_day_def example_task_def series_ended_def)
  have s1: "task_start 0 (date example_leap_day) = Some 1709164800000"
    by (simp add: example_leap_day_def parse_leap_day parse_eq_task_start [symmetric])
  have v1: "task_in_view 0 YEAR 1751328000000 example_leap_day"
    using f1 s1 by (simp add: task_in_view_def Let_def year_prefilter_def js_le_opt_def
                              interval_2025)
  have o1: "\<not> isTaskActiveOnDate 0 example_leap_day x" if x: "x \<in> set ?days" for x
  proof
    assume "isTaskActiveOnDate 0 example_leap_day x"
    then have md: "getDate 0 x = 29" "getMonth 0 x = 1"
      using yearly_active_iff [OF f1 n1, of 0 x] s1 fields_leap_day by auto
    have "getFullYear 0 x = 2025"
      using year_days_in_year [OF x] year_of_jul01 by simp
    then have "InLeapYear (LocalTime 0 x) = 0"
      by (simp add: InLeapYear_def getFullYear_def DaysInYear_def)
    then have "DateFromTime (LocalTime 0 x) \<le> 28"
      using date_valid [of "LocalTime 0 x"] md(2)
      by (simp add: getMonth_def month_length_def)
    with md(1) show False by (simp add: getDate_def)
  qed
  have f2: "frequency example_yearly_ended = YEARLY"
    by (simp add: example_yearly_ended_def example_yearly_def)
  have s2: "task_start 0 (date example_yearly_ended) = Some 1678838400000"
    by (simp add: example_yearly_ended_def example_yearly_def parse_mar15
                  parse_eq_task_start [symmetric])
  have v2: "task_in_view 0 YEAR 1751328000000 example_yearly_ended"
    using f2 s2 by (simp add: task_in_view_def Let_def year_prefilter_def js_le_opt_def
                              interval_2025)
  have o2: "\<not> isTaskActiveOnDate 0 example_yearly_ended x" if x: "x \<in> set ?days" for x
  proof -
    have "1735689600000 \<le> x"
      using year_days_in_year [OF x] by (simp add: interval_2025)
    then have "setHours0 0 1735689600000 \<le> setHours0 0 x" by (rule setHours0_mono)
    moreover have "setHours0 0 1735689600000 = 1735689600000"
      "setHours0 0 1685577600000 = 1685577600000"
      by (simp_all add: setHours0_def UTC_def LocalTime_def MakeDate_def Day_def msPerDay_def)
    ultimately have "setHours0 0 1685577600000 < setHours0 0 x" by simp
    then show ?thesis
      by (simp add: isTaskActiveOnDate_def example_yearly_ended_def)
  qed
  show ?thesis
    using f1 v1 o1 f2 v2 o2 by (simp add: occurs_in_interval_def list_ex_iff)
qed

text \<open>
  C8. Dropping a task on a quadrant: a task that is not the dragged one stays as it is,
  and so does the dragged task when it already has the quadrant's urgency and
  importance. Otherwise the dragged task gets the quadrant's urgency and importance,
  one more history entry at the end, with field \<^verbatim>\<open>Matrix Position\<close> and the old and
  new pair written \<^verbatim>\<open>urgency / importance\<close>, and a fresh \<^verbatim>\<open>updatedAt\<close>; every other
  field keeps its value, and the collection keeps its length.
\<close>

theorem relocate_frame:
  assumes "i < length tasks" and "quadrant_of_id oid = Some q" and "activeId \<noteq> oid"
  shows "length (handleDragEnd gen clock tasks activeId (Some oid)) = length tasks
     \<and> (let t = tasks ! i;
            t' = handleDragEnd gen clock tasks activeId (Some oid) ! i;
            u = fst (QUADRANTS q);
            im = snd (QUADRANTS q)
        in (task_id t \<noteq> activeId \<longrightarrow> t' = t)
         \<and> (urgency t = u \<and> importance t = im \<longrightarrow> t' = t)
         \<and> (task_id t = activeId \<and> (urgency t \<noteq> u \<or> importance t \<noteq> im) \<longrightarrow>
              t' = t\<lparr>urgency := u, importance := im,
                      history := history t @
                        [\<lparr>entry_id = gen i, timestamp = fst (clock i),
                          field = ''Matrix Position'',
                          oldValue = Urgency_value (urgency t) @ '' / ''
                                       @ Importance_value (importance t),
                          newValue = Urgency_value u @ '' / '' @ Importance_value im,
                          user = ''User''\<rparr>],
                      updatedAt := snd (clock i)\<rparr>
            \<and> task_id t' = task_id t \<and> title t' = title t
            \<and> description t' = description t \<and> status t' = status t
            \<and> date t' = date t \<and> frequency t' = frequency t
            \<and> completedAt t' = completedAt t
            \<and> recurrenceEndedAt t' = recurrenceEndedAt t
            \<and> completionHistory t' = completionHistory t
            \<and> createdAt t' = createdAt t))"
  using assms
  by (simp add: handleDragEnd_length handleDragEnd_nth relocate_task_def Let_def
           del: quadrant_of_id.simps)

theorem relocate_frame_witness:
  "quadrant_of_id ''q1'' = Some q1 \<and> ''k3x9a1b'' \<noteq> ''q1''
   \<and> handleDragEnd example_gen example_clock [example_task, example_other] ''k3x9a1b''
        (Some ''q1'') ! 0
      = example_task\<lparr>urgency := Urgency_HIGH, importance := Importance_HIGH,
                     history := [\<lparr>entry_id = ''h0'', timestamp = 1704844800000,
                                  field = ''Matrix Position'', oldValue = ''Low / Low'',
                                  newValue = ''High / High'', user = ''User''\<rparr>],
                     updatedAt := 1704844800001\<rparr>
   \<and> handleDragEnd example_gen example_clock [example_task, example_other] ''k3x9a1b''
        (Some ''q1'') ! 1 = example_other
   \<and> quadrant_of_id ''q4'' = Some q4 \<and> ''k3x9a1b'' \<noteq> ''q4''
   \<and> handleDragEnd example_gen example_clock [example_task, example_other] ''k3x9a1b''
        (Some ''q4'') ! 0 = example_task"
proof -
  have a: "quadrant_of_id ''q1'' = Some q1" "quadrant_of_id ''q4'' = Some q4"
    by simp_all
  have n: "''k3x9a1b'' \<noteq> ''q1''" "''k3x9a1b'' \<noteq> ''q4''"
    by simp_all
  have l: "0 < length [example_task, example_other]" "1 < length [example_task, example_other]"
    by simp_all
  have moved: "handleDragEnd example_gen example_clock [example_task, example_other]
                 ''k3x9a1b'' (Some ''q1'') ! 0
               = example_task\<lparr>urgency := Urgency_HIGH, importance := Importance_HIGH,
                     history := [\<lparr>entry_id = ''h0'', timestamp = 1704844800000,
                                  field = ''Matrix Position'', oldValue = ''Low / Low'',
                                  newValue = ''High / High'', user = ''User''\<rparr>],
                     updatedAt := 1704844800001\<rparr>"
    using relocate_frame [OF l(1) a(1) n(1), of example_gen example_clock]
    by (simp add: example_task_def example_gen_0 example_clock_def Let_def)
  have other: "handleDragEnd example_gen example_clock [example_task, example_other]
                 ''k3x9a1b'' (Some ''q1'') ! 1 = example_other"
    using relocate_frame [OF l(2) a(1) n(1), of example_gen example_clock]
    by (simp add: example_task_def example_other_def Let_def)
  have same: "handleDragEnd example_gen example_clock [example_task, example_other]
                 ''k3x9a1b'' (Some ''q4'') ! 0 = example_task"
    using relocate_frame [OF l(1) a(2) n(2), of example_gen example_clock]
    by (simp add: example_task_def Let_def)
  show ?thesis
    using a n moved other same by simp
qed

text \<open>
  C9. The history log is append-only: after \<^verbatim>\<open>handleSaveTask\<close> with any patch, after
  \<^verbatim>\<open>handleDragEnd\<close>, and after the end or the resumption of a series, the history of
  each task of the collection starts with the history it had before.
\<close>

theorem history_append_only:
  assumes "i < length tasks"
  shows "prefix (history (tasks ! i)) (history (handleSaveTask gen ts cur tasks eid p ! i))
       \<and> prefix (history (tasks ! i))
           (history (handleDragEnd gen' clock tasks activeId overId ! i))
       \<and> prefix (history (tasks ! i))
           (history (endSeries tza gen now ts cur tasks task contextDate ! i))
       \<and> prefix (history (tasks ! i))
           (history (resumeSeries tza gen ts cur tasks task contextDate ! i))"
proof -
  have save: "prefix (history (tasks ! i)) (history (handleSaveTask gen ts cur tasks e q ! i))"
    for e q
    using assms by (simp add: handleSaveTask_nth history_update_task)
  have drag: "prefix (history (tasks ! i))
                (history (handleDragEnd gen' clock tasks activeId overId ! i))"
    using assms
    by (simp add: handleDragEnd_nth history_relocate_task split: option.splits
             del: quadrant_of_id.simps)
  show ?thesis
    unfolding endSeries_def resumeSeries_def using save drag by blast
qed

theorem history_append_only_witness:
  "0 < length [example_logged]
   \<and> prefix (history example_logged)
       (history (handleSaveTask example_gen2 1704844800000 1704844800000 [example_logged]
                   (Some ''k3x9a1b'') [P_title ''Final''] ! 0))
   \<and> history (handleSaveTask example_gen2 1704844800000 1704844800000 [example_logged]
                 (Some ''k3x9a1b'') [P_title ''Final''] ! 0)
      = history example_logged @
          [\<lparr>entry_id = ''h0x0'', timestamp = 1704844800000, field = ''Title'',
            oldValue = ''Draft'', newValue = ''Final'', user = ''User''\<rparr>]"
proof -
  have l: "0 < length [example_logged]" by simp
  have h: "history (handleSaveTask example_gen2 1704844800000 1704844800000 [example_logged]
                 (Some ''k3x9a1b'') [P_title ''Final''] ! 0)
      = history example_logged @
          [\<lparr>entry_id = ''h0x0'', timestamp = 1704844800000, field = ''Title'',
            oldValue = ''Draft'', newValue = ''Final'', user = ''User''\<rparr>]"
    by (simp add: handleSaveTask_def update_task_def detect_changes_def example_logged_def
                  example_task_def example_gen2_00 spread_patch_def capitalize_title
                  enumerate_eq_zip del: capitalize.simps)
  show ?thesis
    using history_append_only [OF l, of example_gen2 1704844800000 1704844800000
            "Some ''k3x9a1b''" "[P_title ''Final'']"] l h
    by simp
qed

text \<open>
  C10. The cut-off of \<^verbatim>\<open>recurrenceEndedAt\<close> applies to a task without frequency as
  well. With a timestamp other than zero there, the task is active on no instant whose
  day is after the day of that timestamp; so when the stored date is the string of a
  valid date and the day of the timestamp is before that date, the task is active on no
  date at all.
\<close>

theorem ended_cutoff_one_off:
  assumes "frequency task = NONE" and "recurrenceEndedAt task = Some e" and "e \<noteq> 0"
  shows "(setHours0 tza e < setHours0 tza d \<longrightarrow> \<not> isTaskActiveOnDate tza task d)
         \<and> (date task = date_string y m dd \<and> valid_date y m dd
              \<and> setHours0 tza e < local_midnight tza y m dd
              \<longrightarrow> (\<forall>d'. \<not> isTaskActiveOnDate tza task d'))"
proof -
  have cut: "\<And>x. setHours0 tza e < setHours0 tza x \<Longrightarrow> \<not> isTaskActiveOnDate tza task x"
    using assms by (simp add: isTaskActiveOnDate_def)
  have "\<not> isTaskActiveOnDate tza task x"
    if s: "date task = date_string y m dd" and v: "valid_date y m dd"
      and lt: "setHours0 tza e < local_midnight tza y m dd" for x
  proof (cases "setHours0 tza e < setHours0 tza x")
    case True
    then show ?thesis by (rule cut)
  next
    case False
    have p: "parseLocalTaskDate tza (date task) = Some (local_midnight tza y m dd)"
      unfolding s by (rule parse_valid_date_string [OF v])
    from False have "setHours0 tza x < local_midnight tza y m dd" using lt by simp
    then show ?thesis
      using p by (simp add: isTaskActiveOnDate_def Let_def js_lt_def)
  qed
  then show ?thesis using cut by blast
qed

theorem ended_cutoff_one_off_witness:
  "frequency example_one_off_ended = NONE
   \<and> recurrenceEndedAt example_one_off_ended = Some 1704240000000
   \<and> (1704240000000::int) \<noteq> 0
   \<and> date example_one_off_ended = date_string 2024 1 10 \<and> valid_date 2024 1 10
   \<and> setHours0 19800000 1704240000000 < local_midnight 19800000 2024 1 10
   \<and> \<not> isTaskActiveOnDate 19800000 example_one_off_ended 1704825000000
   \<and> \<not> isTaskActiveOnDate 19800000 example_one_off_ended 1704868200000"
proof -
  have f: "frequency example_one_off_ended = NONE"
    by (simp add: example_one_off_ended_def)
  have r: "recurrenceEndedAt example_one_off_ended = Some 1704240000000"
    by (simp add: example_one_off_ended_def)
  have n: "(1704240000000::int) \<noteq> 0" by simp
  have s: "date example_one_off_ended = date_string 2024 1 10"
    by (simp add: example_one_off_ended_def dates_jan10)
  have lt: "setHours0 19800000 1704240000000 < local_midnight 19800000 2024 1 10"
    by (simp add: dates_jan10)
  have "\<forall>d'. \<not> isTaskActiveOnDate 19800000 example_one_off_ended d'"
    using ended_cutoff_one_off [OF f r n, of 19800000 0 2024 1 10] s dates_jan10(2) lt
    by blast
  then show ?thesis using f r s dates_jan10(2) lt by simp
qed

text \<open>
  As the specification states it, for every timestamp that is set, C10 fails: the code
  tests \<^verbatim>\<open>if (task.recurrenceEndedAt)\<close>, and the timestamp 0, which \<^verbatim>\<open>parseCSV\<close> stores
  for the cell \<^verbatim>\<open>0\<close>, is falsy. A one-off task dated 2024-01-10 with that timestamp
  is active on its date, which is after 1 January 1970.
\<close>

theorem ended_cutoff_zero_counterexample:
  "frequency example_one_off_zero = NONE
   \<and> recurrenceEndedAt example_one_off_zero = Some 0
   \<and> setHours0 0 0 < setHours0 0 1704844800000
   \<and> isTaskActiveOnDate 0 example_one_off_zero 1704844800000"
proof -
  have f: "frequency example_one_off_zero = NONE"
    and r: "recurrenceEndedAt example_one_off_zero = Some 0"
    and d: "date example_one_off_zero = ''2024-01-10''"
    by (simp_all add: example_one_off_zero_def)
  have m: "setHours0 0 0 = 0" "setHours0 0 1704844800000 = 1704844800000"
    by (simp_all add: setHours0_def UTC_def LocalTime_def MakeDate_def Day_def msPerDay_def)
  have "isTaskActiveOnDate 0 example_one_off_zero 1704844800000"
    unfolding isTaskActiveOnDate_def f r d parse_jan10
    by (simp add: m js_lt_def js_eq_def)
  then show ?thesis using f r m by simp
qed

end
